theory Spec2Isabelle
  imports Main "HOL-Library.Word"
begin

unbundle bit_operations_syntax

section \<open>Platform types and constants\<close>

text \<open>
  The tracer runs on Linux x86-64 (it reads \<open>ORIG_RAX\<close> and the System V argument
  registers). \<open>long\<close> and \<open>unsigned long\<close> are 64-bit words, \<open>int\<close> and \<open>mode_t\<close>
  are 32-bit words. Process identifiers never take part in arithmetic here, so they are
  plain integers. The numeric constants below come from the system headers
  (\<open>fcntl.h\<close>, \<open>sys/stat.h\<close>, \<open>limits.h\<close>, \<open>sys/reg.h\<close>, \<open>sys/ptrace.h\<close>,
  \<open>signal.h\<close>), which are not part of the repository.
\<close>

type_synonym u64 = "64 word"
type_synonym c_int = "32 word"
type_synonym mode_t = "32 word"
type_synonym pid_t = int

definition O_ACCMODE :: c_int where "O_ACCMODE = 0x3"
definition O_WRONLY :: c_int where "O_WRONLY = 0x1"
definition O_RDWR :: c_int where "O_RDWR = 0x2"
definition O_CREAT :: c_int where "O_CREAT = 0x40"
definition O_TRUNC :: c_int where "O_TRUNC = 0x200"
definition O_NOFOLLOW :: c_int where "O_NOFOLLOW = 0x20000"
definition AT_REMOVEDIR :: u64 where "AT_REMOVEDIR = 0x200"

definition S_IFMT :: mode_t where "S_IFMT = 0xF000"
definition S_IFDIR :: mode_t where "S_IFDIR = 0x4000"
definition S_IFREG :: mode_t where "S_IFREG = 0x8000"
definition S_IFLNK :: mode_t where "S_IFLNK = 0xA000"

definition PATH_MAX :: nat where "PATH_MAX = 4096"
definition PIPE_BUF :: int where "PIPE_BUF = 4096"

text \<open>\<open>AT_FDCWD\<close> is the \<open>int\<close> \<open>-100\<close>. The handlers hold a descriptor read from a
  register in an \<open>unsigned long\<close>, so the comparison converts the constant to 64 bits.\<close>

definition AT_FDCWD :: u64 where "AT_FDCWD = - 100"

text \<open>C's conversion of an integer to a truth value, and of a comparison to an \<open>int\<close>.\<close>

definition truthy :: "'a::len word \<Rightarrow> bool" where
  "truthy w = (0 < unat w)"

definition int_of_bool :: "bool \<Rightarrow> c_int" where
  "int_of_bool b = (if b then 1 else 0)"

definition S_ISDIR :: "mode_t \<Rightarrow> bool" where
  "S_ISDIR m = (m AND S_IFMT = S_IFDIR)"

definition S_ISREG :: "mode_t \<Rightarrow> bool" where
  "S_ISREG m = (m AND S_IFMT = S_IFREG)"

definition S_ISLNK :: "mode_t \<Rightarrow> bool" where
  "S_ISLNK m = (m AND S_IFMT = S_IFLNK)"

section \<open>Events and the calls made on the observer\<close>

text \<open>
  \<open>es_event_type_t\<close> is declared in a header outside the two source files; the
  constructors are the enumerators those files name.
\<close>

datatype es_event_type_t =
    ES_EVENT_TYPE_NOTIFY_FORK
  | ES_EVENT_TYPE_NOTIFY_EXEC
  | ES_EVENT_TYPE_NOTIFY_EXIT
  | ES_EVENT_TYPE_NOTIFY_TRUNCATE
  | ES_EVENT_TYPE_NOTIFY_SETATTRLIST
  | ES_EVENT_TYPE_NOTIFY_SETEXTATTR
  | ES_EVENT_TYPE_NOTIFY_DELETEEXTATTR
  | ES_EVENT_TYPE_NOTIFY_SETFLAGS
  | ES_EVENT_TYPE_NOTIFY_SETOWNER
  | ES_EVENT_TYPE_NOTIFY_SETMODE
  | ES_EVENT_TYPE_NOTIFY_WRITE
  | ES_EVENT_TYPE_NOTIFY_UTIMES
  | ES_EVENT_TYPE_NOTIFY_SETTIME
  | ES_EVENT_TYPE_NOTIFY_SETACL
  | ES_EVENT_TYPE_NOTIFY_GETATTRLIST
  | ES_EVENT_TYPE_NOTIFY_GETEXTATTR
  | ES_EVENT_TYPE_NOTIFY_LISTEXTATTR
  | ES_EVENT_TYPE_NOTIFY_ACCESS
  | ES_EVENT_TYPE_NOTIFY_STAT
  | ES_EVENT_TYPE_NOTIFY_CREATE
  | ES_EVENT_TYPE_NOTIFY_OPEN
  | ES_EVENT_TYPE_NOTIFY_READLINK
  | ES_EVENT_TYPE_NOTIFY_UNLINK
  | ES_EVENT_TYPE_NOTIFY_LINK
  | ES_EVENT_TYPE_AUTH_SETOWNER

text \<open>
  An \<open>IOEvent\<close> as the two files construct it. The long constructor passes the reporting
  pid, the child pid and the parent pid; the short one does not, so these are optional.
  The error code is \<open>None\<close> where the constructor call leaves it out.
\<close>

record IOEvent =
  ev_pids :: "(pid_t \<times> pid_t \<times> pid_t) option"
  ev_type :: es_event_type_t
  ev_src_path :: string
  ev_dst_path :: string
  ev_exec_path :: string
  ev_mode :: mode_t
  ev_error :: "int option"

text \<open>
  The tracer acts on the world only through calls on the observer (\<open>m_bxl\<close>). A handler
  is modelled by the list of calls it makes, in order, with the arguments it passes.
  An omitted trailing argument (a default of the header) is \<open>None\<close>.
\<close>

datatype bxl_call =
    Report_access_event string IOEvent "bool option"
  | Report_access_path string es_event_type_t string mode_t c_int int bool pid_t
  | Report_access_at string es_event_type_t c_int string c_int bool pid_t int
  | SendExitReport pid_t

section \<open>Register reader: \<open>GetErrno\<close>\<close>

text \<open>
  \<open>GetErrno\<close> reads the return-value register (argument index 0) into a \<open>long\<close> and
  returns \<open>returnValue == 0 ? 0 : 0xffffffffffffffffUL - returnValue\<close> as an \<open>int\<close>.
  The subtraction is done on \<open>unsigned long\<close>; the result is cut to 32 bits and read
  as a signed number. The argument of the model is the register's content.
\<close>

definition GetErrno :: "u64 \<Rightarrow> int" where
  "GetErrno returnValue =
     (if returnValue = 0 then 0
      else sint (ucast (0xffffffffffffffff - returnValue) :: c_int))"

section \<open>Classification of an open: \<open>ReportOpen\<close>\<close>

text \<open>
  \<open>ReportOpen\<close> looks the mode of the path up (\<open>get_mode\<close>, a file-system query; 0
  when the path does not exist) and builds the event from it. In the source the two
  write-intent tests are written \<open>oflag & O_ACCMODE == O_WRONLY\<close> and
  \<open>oflag & O_ACCMODE == O_RDWR\<close>; \<open>==\<close> binds tighter than \<open>&\<close>, so each is
  \<open>oflag & (O_ACCMODE == O_WRONLY)\<close>, the flags masked with the value of a comparison
  of two constants.
\<close>

definition ReportOpen_isCreate :: "mode_t \<Rightarrow> c_int \<Rightarrow> bool" where
  "ReportOpen_isCreate pathMode oflag =
     (let pathExists = truthy pathMode
      in \<not> pathExists \<and> truthy (oflag AND (O_CREAT OR O_TRUNC)))"

definition ReportOpen_isWrite :: "mode_t \<Rightarrow> c_int \<Rightarrow> bool" where
  "ReportOpen_isWrite pathMode oflag =
     (let pathExists = truthy pathMode
      in pathExists \<and>
         (truthy (oflag AND (O_CREAT OR O_TRUNC)) \<and>
          (truthy (oflag AND int_of_bool (O_ACCMODE = O_WRONLY)) \<or>
           truthy (oflag AND int_of_bool (O_ACCMODE = O_RDWR)))))"

definition ReportOpen_event_type :: "mode_t \<Rightarrow> c_int \<Rightarrow> es_event_type_t" where
  "ReportOpen_event_type pathMode oflag =
     (if ReportOpen_isCreate pathMode oflag then ES_EVENT_TYPE_NOTIFY_CREATE
      else if ReportOpen_isWrite pathMode oflag then ES_EVENT_TYPE_NOTIFY_WRITE
      else ES_EVENT_TYPE_NOTIFY_OPEN)"

definition ReportOpen ::
  "(string \<Rightarrow> mode_t) \<Rightarrow> string \<Rightarrow> string \<Rightarrow> c_int \<Rightarrow> string \<Rightarrow> bxl_call list" where
  "ReportOpen get_mode programPath path oflag syscallName =
     (let pathMode = get_mode path
      in [Report_access_event syscallName
            \<lparr>ev_pids = None,
             ev_type = ReportOpen_event_type pathMode oflag,
             ev_src_path = path, ev_dst_path = [],
             ev_exec_path = programPath, ev_mode = pathMode, ev_error = Some 0\<rparr>
            None])"

section \<open>File kinds: \<open>is_non_file\<close>\<close>

definition is_non_file :: "mode_t \<Rightarrow> bool" where
  "is_non_file mode =
     (0 < unat mode \<and> \<not> S_ISDIR mode \<and> \<not> S_ISREG mode \<and> \<not> S_ISLNK mode)"

section \<open>Access cache: \<open>IsCacheHit\<close>\<close>

text \<open>
  The part of the observer the cache uses: the disposed flag (the member written
  \<open>disposed\<close> with a trailing underscore in the source) and the cache, an
  \<open>unordered_map\<close> from an event type to an \<open>unordered_set\<close> of paths.
\<close>

record observer =
  obs_disposed :: bool
  obs_cache :: "es_event_type_t \<rightharpoonup> string set"

text \<open>
  The \<open>switch\<close> that coalesces events. The first group of labels assigns
  \<open>ES_EVENT_TYPE_NOTIFY_WRITE\<close> and breaks. The second group assigns
  \<open>ES_EVENT_TYPE_NOTIFY_STAT\<close> and, having no \<open>break\<close>, runs on into the
  \<open>default\<close> label, whose statement \<open>key = event\<close> overwrites the key.
\<close>

definition switch_default :: "es_event_type_t \<Rightarrow> es_event_type_t \<Rightarrow> es_event_type_t" where
  "switch_default key event = event"

fun IsCacheHit_key :: "es_event_type_t \<Rightarrow> es_event_type_t" where
  "IsCacheHit_key ES_EVENT_TYPE_NOTIFY_TRUNCATE = ES_EVENT_TYPE_NOTIFY_WRITE"
| "IsCacheHit_key ES_EVENT_TYPE_NOTIFY_SETATTRLIST = ES_EVENT_TYPE_NOTIFY_WRITE"
| "IsCacheHit_key ES_EVENT_TYPE_NOTIFY_SETEXTATTR = ES_EVENT_TYPE_NOTIFY_WRITE"
| "IsCacheHit_key ES_EVENT_TYPE_NOTIFY_DELETEEXTATTR = ES_EVENT_TYPE_NOTIFY_WRITE"
| "IsCacheHit_key ES_EVENT_TYPE_NOTIFY_SETFLAGS = ES_EVENT_TYPE_NOTIFY_WRITE"
| "IsCacheHit_key ES_EVENT_TYPE_NOTIFY_SETOWNER = ES_EVENT_TYPE_NOTIFY_WRITE"
| "IsCacheHit_key ES_EVENT_TYPE_NOTIFY_SETMODE = ES_EVENT_TYPE_NOTIFY_WRITE"
| "IsCacheHit_key ES_EVENT_TYPE_NOTIFY_WRITE = ES_EVENT_TYPE_NOTIFY_WRITE"
| "IsCacheHit_key ES_EVENT_TYPE_NOTIFY_UTIMES = ES_EVENT_TYPE_NOTIFY_WRITE"
| "IsCacheHit_key ES_EVENT_TYPE_NOTIFY_SETTIME = ES_EVENT_TYPE_NOTIFY_WRITE"
| "IsCacheHit_key ES_EVENT_TYPE_NOTIFY_SETACL = ES_EVENT_TYPE_NOTIFY_WRITE"
| "IsCacheHit_key ES_EVENT_TYPE_NOTIFY_GETATTRLIST =
     switch_default ES_EVENT_TYPE_NOTIFY_STAT ES_EVENT_TYPE_NOTIFY_GETATTRLIST"
| "IsCacheHit_key ES_EVENT_TYPE_NOTIFY_GETEXTATTR =
     switch_default ES_EVENT_TYPE_NOTIFY_STAT ES_EVENT_TYPE_NOTIFY_GETEXTATTR"
| "IsCacheHit_key ES_EVENT_TYPE_NOTIFY_LISTEXTATTR =
     switch_default ES_EVENT_TYPE_NOTIFY_STAT ES_EVENT_TYPE_NOTIFY_LISTEXTATTR"
| "IsCacheHit_key ES_EVENT_TYPE_NOTIFY_ACCESS =
     switch_default ES_EVENT_TYPE_NOTIFY_STAT ES_EVENT_TYPE_NOTIFY_ACCESS"
| "IsCacheHit_key ES_EVENT_TYPE_NOTIFY_STAT =
     switch_default ES_EVENT_TYPE_NOTIFY_STAT ES_EVENT_TYPE_NOTIFY_STAT"
| "IsCacheHit_key event = switch_default event event"

text \<open>
  \<open>lockAcquired\<close> is the outcome of \<open>cacheMtx_.try_lock_for\<close> (one millisecond).
  The result is the returned flag and the observer with its cache updated.
\<close>

definition IsCacheHit ::
  "bool \<Rightarrow> observer \<Rightarrow> es_event_type_t \<Rightarrow> string \<Rightarrow> string \<Rightarrow> bool \<times> observer" where
  "IsCacheHit lockAcquired obs event path secondPath =
     (if obs_disposed obs \<or> 0 < length secondPath \<or>
         event = ES_EVENT_TYPE_NOTIFY_FORK \<or>
         event = ES_EVENT_TYPE_NOTIFY_EXEC \<or>
         event = ES_EVENT_TYPE_NOTIFY_EXIT
      then (False, obs)
      else
        let key = IsCacheHit_key event
        in if lockAcquired
           then (case obs_cache obs key of
                   None \<Rightarrow> (False, obs\<lparr>obs_cache := (obs_cache obs)(key \<mapsto> {path})\<rparr>)
                 | Some paths \<Rightarrow>
                     (path \<in> paths, obs\<lparr>obs_cache := (obs_cache obs)(key \<mapsto> insert path paths)\<rparr>))
           else (False, obs))"

section \<open>Building an access: \<open>create_access\<close> and \<open>create_access_internal\<close>\<close>

text \<open>
  What the observer reads from its surroundings: whether the sandbox is enabled
  (\<open>IsEnabled\<close>), whether the cache lock can be taken, the file mode of a path
  (\<open>get_mode\<close>, 0 when it cannot be determined), the observer's own pid and parent
  pid, and its program path.
\<close>

record environment =
  env_enabled :: bool
  env_lock :: bool
  env_get_mode :: "string \<Rightarrow> mode_t"
  env_getpid :: pid_t
  env_getppid :: pid_t
  env_progFullPath :: string

text \<open>
  The policy check (\<open>IOHandler::CheckAccessAndBuildReport\<close>) is an external
  collaborator. \<open>Checked e\<close> says it was called for the event \<open>e\<close> and a report
  built; \<open>NotChecked\<close> is the sentinel \<open>sNotChecked\<close>.
\<close>

datatype AccessCheckResult = NotChecked | Checked IOEvent

definition create_access ::
  "environment \<Rightarrow> observer \<Rightarrow> IOEvent \<Rightarrow> bool \<Rightarrow> AccessCheckResult \<times> observer" where
  "create_access env obs event checkCache =
     (let (hit, obs') =
            (if checkCache
             then IsCacheHit (env_lock env) obs (ev_type event) (ev_src_path event) (ev_dst_path event)
             else (False, obs))
      in if hit then (NotChecked, obs')
         else if env_enabled env then (Checked event, obs')
         else (NotChecked, obs'))"

definition create_access_internal ::
  "environment \<Rightarrow> observer \<Rightarrow> es_event_type_t \<Rightarrow> string \<Rightarrow> string option \<Rightarrow> mode_t \<Rightarrow> bool
   \<Rightarrow> AccessCheckResult \<times> observer" where
  "create_access_internal env obs eventType reportPath secondPath mode checkCache =
     (let secondPath' = (case secondPath of None \<Rightarrow> [] | Some s \<Rightarrow> s);
          (hit, obs') =
            (if checkCache
             then IsCacheHit (env_lock env) obs eventType reportPath secondPath'
             else (False, obs))
      in if hit then (NotChecked, obs')
         else
           let mode' = (if mode = 0 then env_get_mode env reportPath else mode)
           in if is_non_file mode' then (NotChecked, obs')
              else
                let execPath = (if eventType = ES_EVENT_TYPE_NOTIFY_EXEC
                                then reportPath else env_progFullPath env)
                in create_access env obs'
                     \<lparr>ev_pids = Some (env_getpid env, 0, env_getppid env),
                      ev_type = eventType,
                      ev_src_path = reportPath, ev_dst_path = secondPath',
                      ev_exec_path = execPath, ev_mode = mode', ev_error = None\<rparr>
                     False)"

section \<open>The tracee registry and the event loop\<close>

text \<open>
  A registry entry is the tuple \<open>(pid, parent pid, exe path)\<close>; the registry
  \<open>m_traceeTable\<close> is a vector of them. Besides the registry and the pid being
  serviced, the state keeps what the tracer has done so far: the calls on the observer,
  the \<open>ptrace\<close> resume requests, and the messages sent on the notification queue.
\<close>

type_synonym tracee_record = "pid_t \<times> pid_t \<times> string"

datatype ptrace_request = PTRACE_SYSCALL pid_t int | PTRACE_CONT pid_t

datatype mq_message = Mq_exitnotification pid_t

record tracer =
  m_traceePid :: pid_t
  m_traceeTable :: "tracee_record list"
  bxl_calls :: "bxl_call list"
  ptrace_log :: "ptrace_request list"
  mq_sent :: "mq_message list"

text \<open>\<open>std::find_if\<close> on the first component: the first entry with that pid, or the
  end iterator (\<open>None\<close>).\<close>

definition FindParentProcess :: "tracee_record list \<Rightarrow> pid_t \<Rightarrow> tracee_record option" where
  "FindParentProcess table pid = find (\<lambda>item. fst item = pid) table"

text \<open>
  \<open>HandleChildProcess\<close>: \<open>newPid\<close> is the event message (the pid of the new
  child), \<open>programPath\<close> is the observer's \<open>GetProgramPath()\<close>. The source passes
  \<open>newPid\<close> to \<open>FindParentProcess\<close>.
\<close>

definition HandleChildProcess :: "string \<Rightarrow> string \<Rightarrow> pid_t \<Rightarrow> tracer \<Rightarrow> tracer" where
  "HandleChildProcess programPath syscall newPid st =
     (let maybeParent = FindParentProcess (m_traceeTable st) newPid;
          (traceeppid, exePath) =
            (case maybeParent of
               Some item \<Rightarrow> (fst (snd item), snd (snd item))
             | None \<Rightarrow> (0, programPath));
          event = \<lparr>ev_pids = Some (m_traceePid st, newPid, traceeppid),
                   ev_type = ES_EVENT_TYPE_NOTIFY_FORK,
                   ev_src_path = exePath, ev_dst_path = [],
                   ev_exec_path = exePath, ev_mode = 0, ev_error = Some 0\<rparr>
      in st\<lparr>bxl_calls := bxl_calls st @ [Report_access_event syscall event None],
            m_traceeTable := m_traceeTable st @ [(newPid, m_traceePid st, exePath)],
            ptrace_log := ptrace_log st @
              [PTRACE_SYSCALL newPid 0, PTRACE_SYSCALL (m_traceePid st) 0]\<rparr>)"

text \<open>
  \<open>AllTraceesHaveExited\<close>: \<open>Handleexit\<close> first (an exit report for the pid being
  serviced), then erase/remove-if on the registry, then the extra exit report for the
  tracer's own pid (\<open>getpid()\<close>, here \<open>tracerPid\<close>) when the registry is empty.
\<close>

definition Handleexit :: "tracer \<Rightarrow> tracer" where
  "Handleexit st = st\<lparr>bxl_calls := bxl_calls st @ [SendExitReport (m_traceePid st)]\<rparr>"

definition AllTraceesHaveExited :: "pid_t \<Rightarrow> tracer \<Rightarrow> bool \<times> tracer" where
  "AllTraceesHaveExited tracerPid st =
     (let st1 = Handleexit st;
          st2 = st1\<lparr>m_traceeTable :=
                  filter (\<lambda>item. \<not> (fst item = m_traceePid st1)) (m_traceeTable st1)\<rparr>;
          shouldExit = (length (m_traceeTable st2) = 0)
      in if shouldExit
         then (shouldExit, st2\<lparr>bxl_calls := bxl_calls st2 @ [SendExitReport tracerPid]\<rparr>)
         else (shouldExit, st2))"

text \<open>
  The wait status macros of \<open>sys/wait.h\<close> and the event numbers of
  \<open>sys/ptrace.h\<close>. A status is a non-negative \<open>int\<close>.
\<close>

definition WIFEXITED :: "int \<Rightarrow> bool" where
  "WIFEXITED status = (status AND 0x7f = 0)"

definition WIFSIGNALED :: "int \<Rightarrow> bool" where
  "WIFSIGNALED status =
     (let v = (status AND 0x7f) + 1;
          signed_char = (if 128 \<le> v then v - 256 else v)
      in 0 < drop_bit 1 signed_char)"

definition WIFSTOPPED :: "int \<Rightarrow> bool" where
  "WIFSTOPPED status = (status AND 0xff = 0x7f)"

definition WSTOPSIG :: "int \<Rightarrow> int" where
  "WSTOPSIG status = drop_bit 8 (status AND 0xff00)"

definition SIGTRAP :: int where "SIGTRAP = 5"
definition PTRACE_EVENT_FORK :: int where "PTRACE_EVENT_FORK = 1"
definition PTRACE_EVENT_VFORK :: int where "PTRACE_EVENT_VFORK = 2"
definition PTRACE_EVENT_CLONE :: int where "PTRACE_EVENT_CLONE = 3"
definition PTRACE_EVENT_EXIT :: int where "PTRACE_EVENT_EXIT = 6"
definition PTRACE_EVENT_SECCOMP :: int where "PTRACE_EVENT_SECCOMP = 7"

definition ptrace_event_stop :: "int \<Rightarrow> int \<Rightarrow> bool" where
  "ptrace_event_stop status event = (drop_bit 8 status = (SIGTRAP OR push_bit 8 event))"

text \<open>The statuses at which the loop retires a tracee, and those at which it records
  a new child.\<close>

definition exit_status :: "int \<Rightarrow> bool" where
  "exit_status status =
     (WIFEXITED status \<or> WIFSIGNALED status \<or>
      (WIFSTOPPED status \<and> ptrace_event_stop status PTRACE_EVENT_EXIT))"

definition child_status :: "int \<Rightarrow> bool" where
  "child_status status =
     (WIFSTOPPED status \<and>
      (ptrace_event_stop status PTRACE_EVENT_CLONE \<or>
       ptrace_event_stop status PTRACE_EVENT_FORK \<or>
       ptrace_event_stop status PTRACE_EVENT_VFORK))"

text \<open>
  One return of \<open>wait\<close>: the pid that changed state, its status, and what
  \<open>PTRACE_GETEVENTMSG\<close> would give for it (the new child's pid at a clone, fork or
  vfork stop).
\<close>

record wait_event =
  we_pid :: pid_t
  we_status :: int
  we_eventmsg :: int

datatype fatal = Exit_failure

text \<open>
  The main loop of \<open>AttachToProcess\<close>, over the sequence of status changes that
  \<open>wait\<close> delivers. \<open>None\<close> says the loop is still blocked in \<open>wait\<close> when
  the sequence ends; \<open>Some (Inl Exit_failure)\<close> is \<open>_exit(-1)\<close> on a malformed
  status; \<open>Some (Inr st)\<close> is the state at the \<open>break\<close>. The syscall handlers
  reached at a seccomp stop are the parameter \<open>HandleSysCallGeneric\<close>; none of
  them touches the registry or the notification queue.
\<close>

fun event_loop ::
  "pid_t \<Rightarrow> string \<Rightarrow> (wait_event \<Rightarrow> tracer \<Rightarrow> tracer) \<Rightarrow> wait_event list \<Rightarrow> tracer
   \<Rightarrow> (fatal + tracer) option" where
  "event_loop tracerPid programPath HandleSysCallGeneric [] st = None"
| "event_loop tracerPid programPath HandleSysCallGeneric (e # es) st =
     (let st1 = st\<lparr>m_traceePid := we_pid e\<rparr>;
          status = we_status e
      in if WIFEXITED status then
           (case AllTraceesHaveExited tracerPid st1 of
              (shouldExit, st2) \<Rightarrow>
                if shouldExit then Some (Inr st2)
                else event_loop tracerPid programPath HandleSysCallGeneric es st2)
         else if WIFSIGNALED status then
           (case AllTraceesHaveExited tracerPid st1 of
              (shouldExit, st2) \<Rightarrow>
                if shouldExit then Some (Inr st2)
                else event_loop tracerPid programPath HandleSysCallGeneric es st2)
         else if \<not> WIFSTOPPED status then Some (Inl Exit_failure)
         else if ptrace_event_stop status PTRACE_EVENT_CLONE then
           event_loop tracerPid programPath HandleSysCallGeneric es
             (HandleChildProcess programPath ''clone'' (we_eventmsg e) st1)
         else if ptrace_event_stop status PTRACE_EVENT_FORK then
           event_loop tracerPid programPath HandleSysCallGeneric es
             (HandleChildProcess programPath ''fork'' (we_eventmsg e) st1)
         else if ptrace_event_stop status PTRACE_EVENT_VFORK then
           event_loop tracerPid programPath HandleSysCallGeneric es
             (HandleChildProcess programPath ''vfork'' (we_eventmsg e) st1)
         else if ptrace_event_stop status PTRACE_EVENT_EXIT then
           (case AllTraceesHaveExited tracerPid st1 of
              (shouldExit, st2) \<Rightarrow>
                let st3 = st2\<lparr>ptrace_log := ptrace_log st2 @ [PTRACE_SYSCALL (m_traceePid st2) 0]\<rparr>
                in if shouldExit then Some (Inr st3)
                   else event_loop tracerPid programPath HandleSysCallGeneric es st3)
         else if ptrace_event_stop status PTRACE_EVENT_SECCOMP then
           (let st2 = HandleSysCallGeneric e st1
            in event_loop tracerPid programPath HandleSysCallGeneric es
                 (st2\<lparr>ptrace_log := ptrace_log st2 @ [PTRACE_CONT (m_traceePid st2)]\<rparr>))
         else if WIFSTOPPED status \<and> (WSTOPSIG status AND 0x80) = 0 then
           event_loop tracerPid programPath HandleSysCallGeneric es
             (st1\<lparr>ptrace_log := ptrace_log st1 @ [PTRACE_SYSCALL (m_traceePid st1) (WSTOPSIG status)]\<rparr>)
         else
           event_loop tracerPid programPath HandleSysCallGeneric es
             (st1\<lparr>ptrace_log := ptrace_log st1 @ [PTRACE_SYSCALL (m_traceePid st1) 0]\<rparr>))"

text \<open>
  \<open>AttachToProcess\<close> once the seize and the interrupt have succeeded: seed the
  registry with the root tracee, resume it, run the loop, and after the loop send the
  exit notification for the tracer's own pid on the queue.
\<close>

definition AttachToProcess ::
  "pid_t \<Rightarrow> string \<Rightarrow> (wait_event \<Rightarrow> tracer \<Rightarrow> tracer) \<Rightarrow> wait_event list
   \<Rightarrow> pid_t \<Rightarrow> pid_t \<Rightarrow> string \<Rightarrow> (fatal + tracer) option" where
  "AttachToProcess tracerPid programPath HandleSysCallGeneric events traceePid parentPid exe =
     (let st0 = \<lparr>m_traceePid = traceePid,
                 m_traceeTable = [(traceePid, parentPid, exe)],
                 bxl_calls = [],
                 ptrace_log = [PTRACE_SYSCALL traceePid 0],
                 mq_sent = []\<rparr>
      in case event_loop tracerPid programPath HandleSysCallGeneric events st0 of
           None \<Rightarrow> None
         | Some (Inl f) \<Rightarrow> Some (Inl f)
         | Some (Inr st) \<Rightarrow>
             Some (Inr (st\<lparr>mq_sent := mq_sent st @ [Mq_exitnotification tracerPid]\<rparr>)))"

section \<open>Register and memory reader\<close>

text \<open>
  Register numbers of \<open>sys/reg.h\<close> (x86-64) and \<open>GetArgumentAddr\<close>: the offset in
  the user area of the return value (index 0) or of the argument with that index.
\<close>

definition RAX :: u64 where "RAX = 10"
definition RDI :: u64 where "RDI = 14"
definition RSI :: u64 where "RSI = 13"
definition RDX :: u64 where "RDX = 12"
definition R10 :: u64 where "R10 = 7"
definition R8 :: u64 where "R8 = 9"
definition R9 :: u64 where "R9 = 8"

definition GetArgumentAddr :: "int \<Rightarrow> u64" where
  "GetArgumentAddr index =
     (let addr = 8
      in if index = 0 then addr * RAX
         else if index = 1 then addr * RDI
         else if index = 2 then addr * RSI
         else if index = 3 then addr * RDX
         else if index = 4 then addr * R10
         else if index = 5 then addr * R8
         else if index = 6 then addr * R9
         else 0)"

text \<open>
  The tracee as the reader sees it. \<open>peekuser off\<close> is the word
  \<open>PTRACE_PEEKUSER\<close> returns at an offset of the user area. \<open>peektext a\<close> is the
  sequence of words \<open>PTRACE_PEEKTEXT\<close> returns at \<open>a\<close>, \<open>a + 8\<close>,
  \<open>a + 16\<close>, ... up to the first read that fails; the read after the last word of the
  list fails and returns \<open>-1\<close>.
\<close>

record tracee_memory =
  peekuser :: "u64 \<Rightarrow> u64"
  peektext :: "u64 \<Rightarrow> u64 list"

definition ReadArgumentLong :: "tracee_memory \<Rightarrow> int \<Rightarrow> u64" where
  "ReadArgumentLong mem argumentIndex = peekuser mem (GetArgumentAddr argumentIndex)"

text \<open>The bytes of a \<open>long\<close> in memory order (little-endian), as the \<open>char\<close>
  pointer \<open>currentArgReadChar\<close> walks them.\<close>

definition bytes_of_long :: "u64 \<Rightarrow> string" where
  "bytes_of_long w = map (\<lambda>i. char_of (unat (drop_bit (8 * i) w))) [0 ..< 8]"

text \<open>
  \<open>ReadArgumentString\<close> writes into \<open>char argument[PATH_MAX + 1]\<close> at the index
  \<open>currentStringLength\<close>, which starts at 0 and grows by one after each byte. The
  model keeps the bytes written so far, in order; their number is
  \<open>currentStringLength\<close>. The source has no test of the index against the size of
  the array. A write at an index outside the array is undefined behaviour in C; the
  model makes it the error \<open>Buffer_overrun i\<close>, \<open>i\<close> being the index written.
\<close>

datatype read_error = Buffer_overrun nat

definition write_argument :: "string \<Rightarrow> char \<Rightarrow> read_error + string" where
  "write_argument argument c =
     (if length argument < PATH_MAX + 1 then Inr (argument @ [c])
      else Inl (Buffer_overrun (length argument)))"

text \<open>The \<open>for\<close> loop over the bytes of one word. The flag of the result is
  \<open>finishedReadingArgument\<close>; \<open>len\<close> is the parameter \<open>length\<close>.\<close>

fun read_word_bytes :: "bool \<Rightarrow> int \<Rightarrow> string \<Rightarrow> string \<Rightarrow> read_error + (string \<times> bool)" where
  "read_word_bytes nullTerminated len [] argument = Inr (argument, False)"
| "read_word_bytes nullTerminated len (c # cs) argument =
     (case write_argument argument c of
        Inl e \<Rightarrow> Inl e
      | Inr argument' \<Rightarrow>
          if (nullTerminated \<and> c = CHR 0x00) \<or> (0 < len \<and> int (length argument') = len)
          then Inr (argument', True)
          else read_word_bytes nullTerminated len cs argument')"

text \<open>The \<open>while (true)\<close> loop over the words. A failed read, or a word equal to
  \<open>-1\<close>, which the source takes for a failed read, ends the string where it is.\<close>

fun read_words :: "bool \<Rightarrow> int \<Rightarrow> u64 list \<Rightarrow> string \<Rightarrow> read_error + string" where
  "read_words nullTerminated len [] argument = write_argument argument (CHR 0x00)"
| "read_words nullTerminated len (w # ws) argument =
     (if w = - 1 then write_argument argument (CHR 0x00)
      else
        case read_word_bytes nullTerminated len (bytes_of_long w) argument of
          Inl e \<Rightarrow> Inl e
        | Inr (argument', finishedReadingArgument) \<Rightarrow>
            if finishedReadingArgument then write_argument argument' (CHR 0x00)
            else read_words nullTerminated len ws argument')"

text \<open>The result is \<open>std::string(argument)\<close>: the bytes before the first null.\<close>

definition ReadArgumentString :: "tracee_memory \<Rightarrow> int \<Rightarrow> bool \<Rightarrow> int \<Rightarrow> read_error + string" where
  "ReadArgumentString mem argumentIndex nullTerminated len =
     (let addr = GetArgumentAddr argumentIndex;
          addrRegValue = peekuser mem addr
      in case read_words nullTerminated len (peektext mem addrRegValue) [] of
           Inl e \<Rightarrow> Inl e
         | Inr argument \<Rightarrow> Inr (takeWhile (\<lambda>c. c \<noteq> CHR 0x00) argument))"

section \<open>Syscall handlers: \<open>unlink\<close> and \<open>unlinkat\<close>\<close>

text \<open>
  \<open>path[0]\<close> of a \<open>std::string\<close> is the null character when the string is empty.
  The handlers leave the \<open>length\<close> argument of \<open>ReadArgumentString\<close> to its
  default, which is not positive (no byte limit); 0 stands for it.
\<close>

definition first_char :: "string \<Rightarrow> char" where
  "first_char path = (case path of [] \<Rightarrow> CHR 0x00 | c # cs \<Rightarrow> c)"

definition Handleunlink :: "tracee_memory \<Rightarrow> pid_t \<Rightarrow> read_error + bxl_call list" where
  "Handleunlink mem traceePid =
     (case ReadArgumentString mem 1 True 0 of
        Inl e \<Rightarrow> Inl e
      | Inr path \<Rightarrow>
          Inr (if first_char path \<noteq> CHR 0x00
               then [Report_access_path ''unlink'' ES_EVENT_TYPE_NOTIFY_UNLINK path 0
                       O_NOFOLLOW 0 True traceePid]
               else []))"

definition Handleunlinkat :: "tracee_memory \<Rightarrow> pid_t \<Rightarrow> read_error + bxl_call list" where
  "Handleunlinkat mem traceePid =
     (let dirfd = ReadArgumentLong mem 1
      in case ReadArgumentString mem 2 True 0 of
           Inl e \<Rightarrow> Inl e
         | Inr path \<Rightarrow>
             let flags = ReadArgumentLong mem 3
             in Inr (if dirfd \<noteq> AT_FDCWD \<and> first_char path \<noteq> CHR 0x00
                     then
                       let oflags = (if truthy (flags AND AT_REMOVEDIR) then 0 else O_NOFOLLOW)
                       in [Report_access_at ''unlinkat'' ES_EVENT_TYPE_NOTIFY_UNLINK
                             (ucast dirfd) path oflags False traceePid 0]
                     else []))"

section \<open>Path normalizer: \<open>resolve_path\<close>\<close>

text \<open>
  \<open>resolve_path\<close> rewrites a C string in place. The model keeps the string without
  its terminating null and the pointer \<open>pFullpath\<close> as an index into it; the
  character at the index \<open>length s\<close> is the terminator.
\<close>

definition char_at :: "string \<Rightarrow> nat \<Rightarrow> char" where
  "char_at s i = (if i < length s then s ! i else CHR 0x00)"

text \<open>\<open>shift_left(str, n)\<close> copies the string that starts at \<open>str\<close>, terminator
  included, \<open>n\<close> places to the left; \<open>i\<close> is the index of \<open>str\<close>.\<close>

definition shift_left :: "string \<Rightarrow> nat \<Rightarrow> nat \<Rightarrow> string" where
  "shift_left s i n = take (i - n) s @ drop i s"

text \<open>\<open>find_prev_slash\<close> steps back from the index until it stands on a \<open>/\<close>.
  \<open>None\<close> says it stepped off the front of the string.\<close>

fun find_prev_slash :: "string \<Rightarrow> nat \<Rightarrow> nat option" where
  "find_prev_slash s 0 = None"
| "find_prev_slash s (Suc i) =
     (if char_at s i = CHR ''/'' then Some i else find_prev_slash s i)"

text \<open>
  The state of the scan: the string, the index, the visited set, and the prefixes
  reported as read links so far (\<open>report_access_internal("_readlink", ...)\<close>).
\<close>

record resolve_state =
  rs_fullpath :: string
  rs_pFullpath :: nat
  rs_visited :: "string set"
  rs_reports :: "string list"

text \<open>
  Both buffers, \<open>readlinkBuf\<close> and the caller's \<open>fullpath\<close> (declared in
  \<open>normalize_path_at\<close>), hold \<open>PATH_MAX\<close> bytes, and the source copies into them
  with \<open>strcpy\<close>. A copy that does not fit, and the read of
  \<open>readlinkBuf[nReadlinkBuf-1]\<close> for an empty link target, are undefined behaviour in
  C; the model makes them errors.
\<close>

datatype resolve_error = Readlink_buffer_overrun | Path_buffer_overrun | Read_before_buffer

datatype loop_step = Continue resolve_state | Break resolve_state | Abort resolve_error

text \<open>The first block of the loop body: \<open>//\<close>, \<open>/./\<close> and \<open>/../\<close> at the
  index. \<open>None\<close> says that no branch was taken and the body goes on.\<close>

definition collapse_step :: "resolve_state \<Rightarrow> loop_step option" where
  "collapse_step st =
     (let s = rs_fullpath st; p = rs_pFullpath st
      in if char_at s p = CHR ''/'' then
           (case find_prev_slash s p of
              None \<Rightarrow> Some (Abort Read_before_buffer)
            | Some pPrevSlash \<Rightarrow>
                let parentDirLen = p - pPrevSlash - 1
                in if parentDirLen = 0 then
                     Some (Continue (st\<lparr>rs_fullpath := shift_left s (p + 1) 1\<rparr>))
                   else if parentDirLen = 1 \<and> char_at s (p - 1) = CHR ''.'' then
                     Some (Continue (st\<lparr>rs_fullpath := shift_left s (p + 1) 2,
                                        rs_pFullpath := p - 1\<rparr>))
                   else if parentDirLen = 2 \<and> char_at s (p - 1) = CHR ''.''
                             \<and> char_at s (p - 2) = CHR ''.'' then
                     (case (if 0 < pPrevSlash then find_prev_slash s pPrevSlash
                            else Some pPrevSlash) of
                        None \<Rightarrow> Some (Abort Read_before_buffer)
                      | Some pPrevSlash' \<Rightarrow>
                          let shiftLen = p - pPrevSlash'
                          in Some (Continue (st\<lparr>rs_fullpath := shift_left s (p + 1) shiftLen,
                                                rs_pFullpath := pPrevSlash' + 1\<rparr>)))
                   else None)
         else None)"

text \<open>
  The rest of the body, for a prefix that \<open>readlink\<close> resolved to \<open>target\<close>.
  \<open>readlink\<close> stores at most \<open>PATH_MAX\<close> bytes and returns their number.
\<close>

definition symlink_step :: "resolve_state \<Rightarrow> string \<Rightarrow> loop_step" where
  "symlink_step st target =
     (let s = rs_fullpath st; p = rs_pFullpath st; ch = char_at s p;
          nReadlinkBuf = min (length target) PATH_MAX;
          link = take nReadlinkBuf target
      in if PATH_MAX \<le> nReadlinkBuf then Abort Readlink_buffer_overrun
         else
           let prefix = take p s
           in if prefix \<in> rs_visited st then Break (st\<lparr>rs_fullpath := prefix\<rparr>)
              else
                let st1 = st\<lparr>rs_visited := insert prefix (rs_visited st),
                              rs_reports := rs_reports st @ [prefix]\<rparr>
                in if nReadlinkBuf = 0 then Abort Read_before_buffer
                   else
                     let rest = (if last link = CHR ''/'' \<and> ch = CHR ''/''
                                 then drop (p + 1) s else drop p s);
                         buf = link @ rest
                     in if PATH_MAX \<le> length buf then Abort Readlink_buffer_overrun
                        else if hd buf = CHR ''/'' then
                          Continue (st1\<lparr>rs_fullpath := buf, rs_pFullpath := 1\<rparr>)
                        else
                          (case find_prev_slash s p of
                             None \<Rightarrow> Abort Read_before_buffer
                           | Some q \<Rightarrow>
                               let s' = take (q + 1) s @ buf
                               in if PATH_MAX \<le> length s' then Abort Path_buffer_overrun
                                  else Continue (st1\<lparr>rs_fullpath := s',
                                                     rs_pFullpath := q + 1\<rparr>)))"

text \<open>
  One pass through the body of \<open>while (true)\<close>. \<open>readlink\<close> is the file system:
  the target of the symbolic link a path names, or \<open>None\<close> where \<open>real_readlink\<close>
  returns \<open>-1\<close>.
\<close>

definition resolve_step :: "(string \<Rightarrow> string option) \<Rightarrow> bool \<Rightarrow> resolve_state \<Rightarrow> loop_step" where
  "resolve_step readlink followFinalSymlink st =
     (case collapse_step st of
        Some r \<Rightarrow> r
      | None \<Rightarrow>
          (let s = rs_fullpath st; p = rs_pFullpath st; ch = char_at s p;
               nReadlinkBuf =
                 (if ch = CHR ''/'' \<or> (ch = CHR 0x00 \<and> followFinalSymlink)
                  then readlink (take p s) else None)
           in (case nReadlinkBuf of
                 None \<Rightarrow>
                   if ch = CHR 0x00 then Break st
                   else Continue (st\<lparr>rs_pFullpath := p + 1\<rparr>)
               | Some target \<Rightarrow> symlink_step st target)))"

text \<open>The loop. \<open>None\<close> is a loop that never leaves.\<close>

partial_function (option) resolve_loop ::
  "(string \<Rightarrow> string option) \<Rightarrow> bool \<Rightarrow> resolve_state \<Rightarrow> (resolve_error + resolve_state) option" where
  "resolve_loop readlink followFinalSymlink st =
     (case resolve_step readlink followFinalSymlink st of
        Continue st' \<Rightarrow> resolve_loop readlink followFinalSymlink st'
      | Break st' \<Rightarrow> Some (Inr st')
      | Abort e \<Rightarrow> Some (Inl e))"

text \<open>\<open>resolve_path\<close>: the resulting string and the read-link reports made on the
  way. A string that does not start with \<open>/\<close> is left as it is.\<close>

definition resolve_path ::
  "(string \<Rightarrow> string option) \<Rightarrow> bool \<Rightarrow> string \<Rightarrow> (resolve_error + string \<times> string list) option" where
  "resolve_path readlink followFinalSymlink fullpath =
     (if char_at fullpath 0 = CHR ''/''
      then
        (case resolve_loop readlink followFinalSymlink
                \<lparr>rs_fullpath = fullpath, rs_pFullpath = 1, rs_visited = {}, rs_reports = []\<rparr> of
           None \<Rightarrow> None
         | Some (Inl e) \<Rightarrow> Some (Inl e)
         | Some (Inr st) \<Rightarrow> Some (Inr (rs_fullpath st, rs_reports st)))
      else Some (Inr (fullpath, [])))"

section \<open>Report transport: \<open>Send\<close> and \<open>SendReport\<close>\<close>

text \<open>
  The report sink as \<open>Send\<close> meets it: whether the \<open>real_open\<close> entry point was
  found, the descriptor \<open>real_open\<close> returns (\<open>-1\<close> on failure), and the value
  \<open>real_write\<close> returns for a buffer and a count. That value is an \<open>ssize_t\<close>,
  kept as the raw 64-bit word: \<open>-1\<close> is a failed write.
\<close>

record report_sink =
  sink_real_open :: bool
  sink_logFd :: c_int
  sink_write :: "string \<Rightarrow> u64 \<Rightarrow> u64"

text \<open>The calls of \<open>_fatal\<close>, which end the process, and the array of
  non-positive size that \<open>SendReport\<close> would declare.\<close>

datatype send_error =
    Fatal_open_not_found
  | Fatal_buffer_exceeds_PIPE_BUF
  | Fatal_could_not_open
  | Fatal_wrote_only
  | Fatal_message_truncated
  | Undefined_array_size

text \<open>
  \<open>Send\<close>. \<open>bufsiz\<close> is a \<open>size_t\<close>. In \<open>bufsiz > PIPE_BUF\<close> the
  \<open>int\<close> constant is converted to \<open>size_t\<close>; in \<open>numWritten < bufsiz\<close> the
  \<open>ssize_t\<close> is converted to \<open>size_t\<close>, so both comparisons are unsigned
  (\<open><\<close> on words). Resetting the descriptor-table entry and closing the descriptor
  follow the write and do not change the result.
\<close>

definition Send :: "report_sink \<Rightarrow> string \<Rightarrow> u64 \<Rightarrow> send_error + bool" where
  "Send sink buf bufsiz =
     (if \<not> sink_real_open sink then Inl Fatal_open_not_found
      else if word_of_int PIPE_BUF < bufsiz then Inl Fatal_buffer_exceeds_PIPE_BUF
      else
        let logFd = sink_logFd sink
        in if logFd = - 1 then Inl Fatal_could_not_open
           else
             let numWritten = sink_write sink buf bufsiz
             in if numWritten < bufsiz then Inl Fatal_wrote_only
                else Inr True)"

text \<open>
  The operations of an access report that the two files name, and the fields of the
  report that \<open>SendReport\<close> itself reads. \<open>BuildReport\<close> is defined in a header
  outside the two files; it is a parameter: for the size of the destination, the
  report and the text to put in the path field it gives the text it stores and the
  number it returns.
\<close>

datatype FileOperation =
    kOpProcessTreeCompleted
  | kOpDebugMessage
  | kOpFirstAllowWriteCheckInProcess
  | kOpStaticallyLinkedProcess
  | kOpOther nat

record AccessReport =
  ar_operation :: FileOperation
  ar_path :: string
  ar_shouldReport :: bool

text \<open>The four bytes of the length prefix, \<open>*(uint*)(buffer) = numWritten\<close>.\<close>

definition length_prefix :: "int \<Rightarrow> string" where
  "length_prefix numWritten = map (\<lambda>i. char_of (drop_bit (8 * i) numWritten)) [0 ..< 4]"

definition SendReport ::
  "(int \<Rightarrow> AccessReport \<Rightarrow> string \<Rightarrow> string \<times> int) \<Rightarrow> report_sink \<Rightarrow> AccessReport \<Rightarrow> bool
   \<Rightarrow> send_error + bool" where
  "SendReport BuildReport sink report isDebugMessage =
     (if ar_operation report = kOpProcessTreeCompleted then Inr True
      else
        let PrefixLength = 4;
            maxMessageLength = PIPE_BUF - PrefixLength;
            (payload, numWritten) = BuildReport maxMessageLength report (ar_path report)
        in if maxMessageLength \<le> numWritten then
             (if \<not> isDebugMessage then Inl Fatal_message_truncated
              else
                let truncatedSize = int PATH_MAX - (numWritten - maxMessageLength)
                in if truncatedSize \<le> 0 then Inl Undefined_array_size
                   else
                     let truncatedMessage = take (nat (truncatedSize - 1)) (ar_path report);
                         (payload', numWritten') =
                            BuildReport maxMessageLength report truncatedMessage
                     in Send sink (length_prefix numWritten' @ payload')
                          (word_of_int (min (numWritten' + PrefixLength) PIPE_BUF)))
           else
             Send sink (length_prefix numWritten @ payload)
               (word_of_int (min (numWritten + PrefixLength) PIPE_BUF)))"

section \<open>Measures and invariants of the resolution loop\<close>

text \<open>
  The order in which the loop of \<open>resolve_path\<close> descends: first the number of
  strings shorter than \<open>PATH_MAX\<close> that are not yet in the visited set, then the
  length of the string, then the distance of the index from the end.
\<close>

definition resolve_measure :: "resolve_state \<Rightarrow> nat \<times> nat \<times> nat" where
  "resolve_measure st =
     (card ({t. length t < PATH_MAX} - rs_visited st),
      length (rs_fullpath st),
      length (rs_fullpath st) - rs_pFullpath st)"

definition resolve_order :: "(resolve_state \<times> resolve_state) set" where
  "resolve_order = inv_image (less_than <*lex*> less_than <*lex*> less_than) resolve_measure"

text \<open>
  The room the unvisited links can still take: the sum of the lengths of their targets.
  The invariant says that the string starts with \<open>/\<close>, that the index is inside it
  and past that \<open>/\<close>, and that the string with all unvisited targets added still
  fits the buffer.
\<close>

definition link_budget :: "(string \<Rightarrow> string option) \<Rightarrow> string set \<Rightarrow> nat" where
  "link_budget readlink V = (\<Sum>t \<in> dom readlink - V. length (the (readlink t)))"

definition resolve_inv :: "(string \<Rightarrow> string option) \<Rightarrow> resolve_state \<Rightarrow> bool" where
  "resolve_inv readlink st =
     (char_at (rs_fullpath st) 0 = CHR ''/'' \<and> 1 \<le> rs_pFullpath st \<and>
      rs_pFullpath st \<le> length (rs_fullpath st) \<and>
      length (rs_fullpath st) + link_budget readlink (rs_visited st) < PATH_MAX)"

section \<open>Sessions of the tracer\<close>

text \<open>
  The vocabulary in which a whole session of \<open>AttachToProcess\<close> is described.
  A status is \<^emph>\<open>neutral\<close> when the loop only resumes the tracee for it: a stop that
  is neither a clone, fork or vfork event nor an exit event (a seccomp stop, a
  signal-delivery stop, a syscall stop, a group stop).
\<close>

definition neutral_status :: "int \<Rightarrow> bool" where
  "neutral_status status =
     (WIFSTOPPED status \<and> \<not> child_status status \<and>
      \<not> ptrace_event_stop status PTRACE_EVENT_EXIT)"

text \<open>The calls on the observer that describe the life of the process tree: the
  fork event that \<open>HandleChildProcess\<close> sends and the exit reports.\<close>

fun lifecycle_call :: "bxl_call \<Rightarrow> bool" where
  "lifecycle_call (SendExitReport pid) = True"
| "lifecycle_call (Report_access_event syscall event checkCache) =
     (ev_type event = ES_EVENT_TYPE_NOTIFY_FORK)"
| "lifecycle_call (Report_access_path syscall ty path mode flags err checkCache pid) = False"
| "lifecycle_call (Report_access_at syscall ty dirfd path flags getModeWithFd pid err) = False"

text \<open>The pids of the exit notifications of a sequence of status changes, in order.\<close>

definition exit_pids :: "wait_event list \<Rightarrow> pid_t list" where
  "exit_pids es = map we_pid (filter (\<lambda>e. exit_status (we_status e)) es)"

text \<open>The name the loop passes to \<open>HandleChildProcess\<close> for a child status.\<close>

definition child_syscall :: "int \<Rightarrow> string" where
  "child_syscall status =
     (if ptrace_event_stop status PTRACE_EVENT_CLONE then ''clone''
      else if ptrace_event_stop status PTRACE_EVENT_FORK then ''fork''
      else ''vfork'')"

text \<open>
  What the handlers reached through \<open>HandleSysCallGeneric\<close> leave alone. The switch
  of \<open>HandleSysCallGeneric\<close> dispatches to the file handlers only (\<open>Handleexit\<close> is
  not among its cases); they read the tracee and report file accesses, and none of them
  writes \<open>m_traceeTable\<close>, sends on the queue, reports a fork event or sends an exit
  report.
\<close>

definition handler_frame :: "(wait_event \<Rightarrow> tracer \<Rightarrow> tracer) \<Rightarrow> bool" where
  "handler_frame h =
     (\<forall>e st. m_traceeTable (h e st) = m_traceeTable st \<and> mq_sent (h e st) = mq_sent st \<and>
             filter lifecycle_call (bxl_calls (h e st)) = filter lifecycle_call (bxl_calls st))"

section \<open>Results\<close>

lemma truthy_iff: "truthy w \<longleftrightarrow> w \<noteq> 0"
  by (simp add: truthy_def unat_gt_0)

lemma ReportOpen_isWrite_never: "\<not> ReportOpen_isWrite pathMode oflag"
  by (simp add: ReportOpen_isWrite_def O_ACCMODE_def O_WRONLY_def O_RDWR_def
      int_of_bool_def truthy_def)

text \<open>
  C1. The claim asks that \<open>openat\<close> of an existing path with \<open>O_CREAT|O_WRONLY\<close> be
  classified as a write. The code classifies it as an open: the write test masks the
  flags with the value of a constant comparison, which is 0. The theorem evaluates
  \<open>ReportOpen\<close> for an existing regular file (mode \<open>0100644\<close>) and the flags
  \<open>O_CREAT|O_WRONLY\<close>.
\<close>

theorem C1_existing_creat_wronly_reported_as_open:
  "ReportOpen (\<lambda>p. 0x81A4) ''/usr/bin/tracer'' ''/work/rel/file'' (O_CREAT OR O_WRONLY) ''openat''
   = [Report_access_event ''openat''
        \<lparr>ev_pids = None, ev_type = ES_EVENT_TYPE_NOTIFY_OPEN,
         ev_src_path = ''/work/rel/file'', ev_dst_path = [],
         ev_exec_path = ''/usr/bin/tracer'', ev_mode = 0x81A4, ev_error = Some 0\<rparr> None]"
  by (simp add: ReportOpen_def ReportOpen_event_type_def ReportOpen_isCreate_def
      ReportOpen_isWrite_never truthy_def)

text \<open>
  C5. The claim asks for errno 2 on a raw return of \<open>-2\<close> and for 0 on every
  non-negative return. The code subtracts the register from \<open>2^64 - 1\<close>, which is the
  negation minus one: a raw \<open>-2\<close> gives 1, a raw \<open>-1\<close> gives 0, and a positive
  return such as 3 gives \<open>-4\<close>.
\<close>

theorem C5_GetErrno_off_by_one:
  "GetErrno (- 2) = 1 \<and> GetErrno (- 1) = 0 \<and> GetErrno 3 = - 4"
  by (simp add: GetErrno_def)

text \<open>
  C4. The claim asks that two event types of the metadata-read class share one cache
  entry. In the code the second group of \<open>case\<close> labels has no \<open>break\<close>, so the
  key is the event type itself: after \<open>IsCacheHit(STAT, "/f")\<close> the call
  \<open>IsCacheHit(ACCESS, "/f")\<close> is a miss. The theorem evaluates the two calls in
  sequence on an empty cache, with the lock available.
\<close>

theorem C4_stat_then_access_is_a_miss:
  "fst (IsCacheHit True \<lparr>obs_disposed = False, obs_cache = Map.empty\<rparr>
          ES_EVENT_TYPE_NOTIFY_STAT ''/f'' []) = False \<and>
   fst (IsCacheHit True
          (snd (IsCacheHit True \<lparr>obs_disposed = False, obs_cache = Map.empty\<rparr>
                  ES_EVENT_TYPE_NOTIFY_STAT ''/f'' []))
          ES_EVENT_TYPE_NOTIFY_ACCESS ''/f'' []) = False"
  by (simp add: IsCacheHit_def switch_default_def)

text \<open>\<open>is_non_file\<close> on the bits of the mode: the file type is none of
  \<open>S_IFDIR\<close>, \<open>S_IFREG\<close>, \<open>S_IFLNK\<close>, and the mode is not 0.\<close>

lemma is_non_file_bits:
  "is_non_file m \<longleftrightarrow>
     m \<noteq> 0 \<and> m AND 0xF000 \<noteq> 0x4000 \<and> m AND 0xF000 \<noteq> 0x8000 \<and> m AND 0xF000 \<noteq> 0xA000"
  by (simp add: is_non_file_def S_ISDIR_def S_ISREG_def S_ISLNK_def S_IFMT_def S_IFDIR_def
      S_IFREG_def S_IFLNK_def unat_gt_0)

text \<open>The result of \<open>create_access_internal\<close> for every input: no check on a cache
  hit or a non-file, the event handed to the policy check otherwise (when the sandbox
  is enabled).\<close>

lemma create_access_internal_result:
  "create_access_internal env obs ty path second mode checkCache =
     (let secondPath = (case second of None \<Rightarrow> [] | Some s \<Rightarrow> s);
          lookup = IsCacheHit (env_lock env) obs ty path secondPath;
          hit = (checkCache \<and> fst lookup);
          obs' = (if checkCache then snd lookup else obs);
          mode' = (if mode = 0 then env_get_mode env path else mode)
      in if hit \<or> is_non_file mode' then (NotChecked, obs')
         else if env_enabled env then
           (Checked \<lparr>ev_pids = Some (env_getpid env, 0, env_getppid env), ev_type = ty,
              ev_src_path = path, ev_dst_path = secondPath,
              ev_exec_path = (if ty = ES_EVENT_TYPE_NOTIFY_EXEC then path else env_progFullPath env),
              ev_mode = mode', ev_error = None\<rparr>, obs')
         else (NotChecked, obs'))"
  by (cases checkCache)
     (auto simp add: create_access_internal_def create_access_def Let_def split: prod.split)

text \<open>
  C10. A mode of 0 (the mode of a path could not be determined) is not a non-file.
  \<open>is_non_file\<close> holds exactly for a non-zero mode whose file type is none of
  directory (\<open>0x4000\<close>), regular file (\<open>0x8000\<close>) and symlink (\<open>0xA000\<close>).
  \<open>create_access_internal\<close> looks the mode up when it is given 0, and, for every
  input, returns \<open>NotChecked\<close> exactly on a cache hit, on such a non-zero mode, or
  with the sandbox disabled; in every other case, mode 0 included, it hands the policy
  check the event built from the path and the mode. The observer it returns is the one
  the cache lookup left.
\<close>

theorem C10_only_existing_non_files_are_skipped:
  "\<not> is_non_file 0 \<and>
   (is_non_file m \<longleftrightarrow>
      m \<noteq> 0 \<and> m AND 0xF000 \<noteq> 0x4000 \<and> m AND 0xF000 \<noteq> 0x8000 \<and> m AND 0xF000 \<noteq> 0xA000) \<and>
   create_access_internal env obs ty path second mode checkCache =
     (let secondPath = (case second of None \<Rightarrow> [] | Some s \<Rightarrow> s);
          lookup = IsCacheHit (env_lock env) obs ty path secondPath;
          hit = (checkCache \<and> fst lookup);
          obs' = (if checkCache then snd lookup else obs);
          mode' = (if mode = 0 then env_get_mode env path else mode)
      in if hit \<or>
            (mode' \<noteq> 0 \<and> mode' AND 0xF000 \<noteq> 0x4000 \<and> mode' AND 0xF000 \<noteq> 0x8000 \<and>
             mode' AND 0xF000 \<noteq> 0xA000)
         then (NotChecked, obs')
         else if env_enabled env then
           (Checked \<lparr>ev_pids = Some (env_getpid env, 0, env_getppid env), ev_type = ty,
              ev_src_path = path, ev_dst_path = secondPath,
              ev_exec_path = (if ty = ES_EVENT_TYPE_NOTIFY_EXEC then path else env_progFullPath env),
              ev_mode = mode', ev_error = None\<rparr>, obs')
         else (NotChecked, obs'))"
proof (intro conjI)
  show "\<not> is_non_file 0" by (simp add: is_non_file_def)
  show "is_non_file m \<longleftrightarrow>
      m \<noteq> 0 \<and> m AND 0xF000 \<noteq> 0x4000 \<and> m AND 0xF000 \<noteq> 0x8000 \<and> m AND 0xF000 \<noteq> 0xA000"
    by (rule is_non_file_bits)
  show "create_access_internal env obs ty path second mode checkCache =
     (let secondPath = (case second of None \<Rightarrow> [] | Some s \<Rightarrow> s);
          lookup = IsCacheHit (env_lock env) obs ty path secondPath;
          hit = (checkCache \<and> fst lookup);
          obs' = (if checkCache then snd lookup else obs);
          mode' = (if mode = 0 then env_get_mode env path else mode)
      in if hit \<or>
            (mode' \<noteq> 0 \<and> mode' AND 0xF000 \<noteq> 0x4000 \<and> mode' AND 0xF000 \<noteq> 0x8000 \<and>
             mode' AND 0xF000 \<noteq> 0xA000)
         then (NotChecked, obs')
         else if env_enabled env then
           (Checked \<lparr>ev_pids = Some (env_getpid env, 0, env_getppid env), ev_type = ty,
              ev_src_path = path, ev_dst_path = secondPath,
              ev_exec_path = (if ty = ES_EVENT_TYPE_NOTIFY_EXEC then path else env_progFullPath env),
              ev_mode = mode', ev_error = None\<rparr>, obs')
         else (NotChecked, obs'))"
    unfolding create_access_internal_result is_non_file_bits ..
qed

text \<open>A path that does not exist and a regular file are checked; a socket and a
  character device are skipped.\<close>

theorem C10_witness:
  "fst (create_access_internal
      \<lparr>env_enabled = True, env_lock = True,
       env_get_mode = (\<lambda>p. if p = ''/run/sock'' then 0xC1A4 else if p = ''/etc/passwd'' then 0x81A4
                          else if p = ''/dev/null'' then 0x21B6 else 0),
       env_getpid = 7, env_getppid = 1, env_progFullPath = ''/bin/tool''\<rparr>
      \<lparr>obs_disposed = False, obs_cache = Map.empty\<rparr>
      ES_EVENT_TYPE_NOTIFY_STAT ''/missing'' None 0 False) =
    Checked \<lparr>ev_pids = Some (7, 0, 1), ev_type = ES_EVENT_TYPE_NOTIFY_STAT,
          ev_src_path = ''/missing'', ev_dst_path = [],
          ev_exec_path = ''/bin/tool'', ev_mode = 0, ev_error = None\<rparr> \<and>
   fst (create_access_internal
      \<lparr>env_enabled = True, env_lock = True,
       env_get_mode = (\<lambda>p. if p = ''/run/sock'' then 0xC1A4 else if p = ''/etc/passwd'' then 0x81A4
                          else if p = ''/dev/null'' then 0x21B6 else 0),
       env_getpid = 7, env_getppid = 1, env_progFullPath = ''/bin/tool''\<rparr>
      \<lparr>obs_disposed = False, obs_cache = Map.empty\<rparr>
      ES_EVENT_TYPE_NOTIFY_STAT ''/etc/passwd'' None 0 False) =
    Checked \<lparr>ev_pids = Some (7, 0, 1), ev_type = ES_EVENT_TYPE_NOTIFY_STAT,
          ev_src_path = ''/etc/passwd'', ev_dst_path = [],
          ev_exec_path = ''/bin/tool'', ev_mode = 0x81A4, ev_error = None\<rparr> \<and>
   fst (create_access_internal
      \<lparr>env_enabled = True, env_lock = True,
       env_get_mode = (\<lambda>p. if p = ''/run/sock'' then 0xC1A4 else if p = ''/etc/passwd'' then 0x81A4
                          else if p = ''/dev/null'' then 0x21B6 else 0),
       env_getpid = 7, env_getppid = 1, env_progFullPath = ''/bin/tool''\<rparr>
      \<lparr>obs_disposed = False, obs_cache = Map.empty\<rparr>
      ES_EVENT_TYPE_NOTIFY_STAT ''/run/sock'' None 0 False) = NotChecked \<and>
   fst (create_access_internal
      \<lparr>env_enabled = True, env_lock = True,
       env_get_mode = (\<lambda>p. if p = ''/run/sock'' then 0xC1A4 else if p = ''/etc/passwd'' then 0x81A4
                          else if p = ''/dev/null'' then 0x21B6 else 0),
       env_getpid = 7, env_getppid = 1, env_progFullPath = ''/bin/tool''\<rparr>
      \<lparr>obs_disposed = False, obs_cache = Map.empty\<rparr>
      ES_EVENT_TYPE_NOTIFY_STAT ''/dev/null'' None 0 False) = NotChecked"
proof -
  let ?env = "\<lparr>env_enabled = True, env_lock = True,
       env_get_mode = (\<lambda>p. if p = ''/run/sock'' then 0xC1A4 else if p = ''/etc/passwd'' then 0x81A4
                          else if p = ''/dev/null'' then 0x21B6 else 0),
       env_getpid = 7, env_getppid = 1, env_progFullPath = ''/bin/tool''\<rparr>"
  let ?obs = "\<lparr>obs_disposed = False, obs_cache = Map.empty\<rparr>"
  have r: "create_access_internal ?env ?obs ES_EVENT_TYPE_NOTIFY_STAT path None 0 False =
      (if env_get_mode ?env path \<noteq> 0 \<and> env_get_mode ?env path AND 0xF000 \<noteq> 0x4000 \<and>
          env_get_mode ?env path AND 0xF000 \<noteq> 0x8000 \<and>
          env_get_mode ?env path AND 0xF000 \<noteq> 0xA000
       then (NotChecked, ?obs)
       else (Checked \<lparr>ev_pids = Some (7, 0, 1), ev_type = ES_EVENT_TYPE_NOTIFY_STAT,
               ev_src_path = path, ev_dst_path = [], ev_exec_path = ''/bin/tool'',
               ev_mode = env_get_mode ?env path, ev_error = None\<rparr>, ?obs))" for path
    using C10_only_existing_non_files_are_skipped [where env = ?env and obs = ?obs
      and ty = ES_EVENT_TYPE_NOTIFY_STAT and second = None and mode = 0 and checkCache = False
      and path = path]
    by (simp add: Let_def)
  show ?thesis unfolding r by simp
qed

subsection \<open>Reading a string from the tracee\<close>

lemma bytes_of_long_A: "bytes_of_long 0x4141414141414141 = ''AAAAAAAA''"
  by (simp add: bytes_of_long_def upt_rec char_of_def bit_0)

lemma bytes_of_long_file:
  "bytes_of_long 0x656C6966 =
     [CHR ''f'', CHR ''i'', CHR ''l'', CHR ''e'', CHR 0x00, CHR 0x00, CHR 0x00, CHR 0x00]"
  by (simp add: bytes_of_long_def upt_rec char_of_def bit_0)

lemma read_word_bytes_fits:
  assumes "length argument + length cs \<le> PATH_MAX" "CHR 0x00 \<notin> set cs"
    "len \<le> 0 \<or> int PATH_MAX < len"
  shows "read_word_bytes nt len cs argument = Inr (argument @ cs, False)"
  using assms
  by (induction cs arbitrary: argument) (auto simp add: write_argument_def)

lemma read_word_bytes_overrun:
  assumes "length argument = PATH_MAX" "len \<le> 0 \<or> int PATH_MAX < len"
  shows "read_word_bytes nt len ''AAAAAAAA'' argument = Inl (Buffer_overrun (PATH_MAX + 1))
       \<or> (len = int PATH_MAX + 1 \<and>
           read_word_bytes nt len ''AAAAAAAA'' argument = Inr (argument @ ''A'', True))"
  using assms by (auto simp add: write_argument_def)

text \<open>Memory that holds at least \<open>PATH_MAX + 1\<close> bytes \<open>A\<close> and no null byte: the
  copy runs past the last element of the array, whether the end is a null byte
  (\<open>len \<le> 0\<close>) or a byte count beyond \<open>PATH_MAX\<close>.\<close>

lemma read_words_overrun:
  assumes "length argument = 8 * k" "k \<le> 512" "513 \<le> n + k" "len \<le> 0 \<or> int PATH_MAX < len"
  shows "read_words nt len (replicate n 0x4141414141414141) argument
         = Inl (Buffer_overrun (PATH_MAX + 1))"
  using assms
proof (induction n arbitrary: argument k)
  case 0
  then show ?case by simp
next
  case (Suc n)
  show ?case
  proof (cases "k = 512")
    case True
    with Suc.prems have len: "length argument = PATH_MAX" by (simp add: PATH_MAX_def)
    from read_word_bytes_overrun [OF len Suc.prems(4), of nt]
    show ?thesis
      using len by (auto simp add: bytes_of_long_A write_argument_def)
  next
    case False
    with Suc.prems have fits: "length argument + length ''AAAAAAAA'' \<le> PATH_MAX"
      by (simp add: PATH_MAX_def)
    have step: "read_word_bytes nt len ''AAAAAAAA'' argument = Inr (argument @ ''AAAAAAAA'', False)"
      by (rule read_word_bytes_fits [OF fits _ Suc.prems(4)]) simp
    have "read_words nt len (replicate n 0x4141414141414141) (argument @ ''AAAAAAAA'')
          = Inl (Buffer_overrun (PATH_MAX + 1))"
      using Suc.prems False by (intro Suc.IH [of _ "Suc k"]) simp_all
    then show ?thesis
      by (simp add: bytes_of_long_A step del: read_word_bytes.simps)
  qed
qed

text \<open>
  C2. The claim asks that \<open>ReadArgumentString\<close> never write outside its array of
  \<open>PATH_MAX + 1\<close> bytes. The loop has no bound: for a tracee whose argument points
  at 513 readable words (4104 bytes) without a null byte, the copy writes the indices
  0 to 4096 and then the index 4097, one past the array. The same happens without null
  termination and with a byte count of 4097: the bytes fit, the terminator does not.
\<close>

theorem C2_ReadArgumentString_overruns_buffer:
  "ReadArgumentString
     \<lparr>peekuser = (\<lambda>off. 0x7ffd1000), peektext = (\<lambda>a. replicate 513 0x4141414141414141)\<rparr>
     1 True 0 = Inl (Buffer_overrun 4097) \<and>
   ReadArgumentString
     \<lparr>peekuser = (\<lambda>off. 0x7ffd1000), peektext = (\<lambda>a. replicate 513 0x4141414141414141)\<rparr>
     1 False 4097 = Inl (Buffer_overrun 4097)"
  using read_words_overrun [of "[]" 0 513 0 True] read_words_overrun [of "[]" 0 513 4097 False]
  by (simp add: ReadArgumentString_def PATH_MAX_def)

subsection \<open>The unlink handlers\<close>

lemma ReadArgumentString_file:
  "peektext mem (peekuser mem (GetArgumentAddr i)) = [0x656C6966] \<Longrightarrow>
   ReadArgumentString mem i True 0 = Inr ''file''"
  by (simp add: ReadArgumentString_def bytes_of_long_file write_argument_def PATH_MAX_def)

text \<open>
  C6. The claim asks that \<open>unlinkat\<close> report every call with a non-empty path,
  whatever the descriptor. The handler also requires \<open>dirfd != AT_FDCWD\<close>: for
  \<open>unlinkat(AT_FDCWD, "file", 0)\<close> it makes no call on the observer, while
  \<open>unlink("file")\<close> and \<open>unlinkat(3, "file", 0)\<close> report. In the three tracees
  below every readable address holds the string \<open>file\<close>.
\<close>

theorem C6_unlinkat_at_fdcwd_not_reported:
  "Handleunlinkat
     \<lparr>peekuser = (\<lambda>off. if off = 8 * RDI then AT_FDCWD
                         else if off = 8 * RSI then 0x7ffd1000 else 0),
      peektext = (\<lambda>a. [0x656C6966])\<rparr> 100 = Inr [] \<and>
   Handleunlinkat
     \<lparr>peekuser = (\<lambda>off. if off = 8 * RDI then 3
                         else if off = 8 * RSI then 0x7ffd1000 else 0),
      peektext = (\<lambda>a. [0x656C6966])\<rparr> 100 =
     Inr [Report_access_at ''unlinkat'' ES_EVENT_TYPE_NOTIFY_UNLINK 3 ''file'' O_NOFOLLOW
            False 100 0] \<and>
   Handleunlink
     \<lparr>peekuser = (\<lambda>off. if off = 8 * RDI then 0x7ffd1000 else 0),
      peektext = (\<lambda>a. [0x656C6966])\<rparr> 100 =
     Inr [Report_access_path ''unlink'' ES_EVENT_TYPE_NOTIFY_UNLINK ''file'' 0 O_NOFOLLOW 0
            True 100]"
  by (simp add: Handleunlinkat_def Handleunlink_def ReadArgumentLong_def
      ReadArgumentString_file Let_def first_char_def)
     (simp add: GetArgumentAddr_def RDI_def RSI_def RDX_def AT_FDCWD_def AT_REMOVEDIR_def
        truthy_def)

subsection \<open>The tracee registry\<close>

text \<open>
  C3. The claim asks that \<open>HandleChildProcess\<close> look up the record of the reporting
  process and take the parent pid and exe path from it. The code passes the pid of the
  new child to \<open>FindParentProcess\<close>, which is not in the registry yet, so the
  fallback is taken on an ordinary clone: with the registry holding the reporting
  process 100 (parent 1, exe \<open>/bin/sh\<close>), the event for the new child 101 carries
  the parent pid 0 and the tracer's own program path, and so does the child's record.
\<close>

theorem C3_child_lookup_uses_new_pid:
  "HandleChildProcess ''/usr/bin/ptracerunner'' ''clone'' 101
     \<lparr>m_traceePid = 100, m_traceeTable = [(100, 1, ''/bin/sh'')], bxl_calls = [],
      ptrace_log = [], mq_sent = []\<rparr>
   = \<lparr>m_traceePid = 100,
      m_traceeTable = [(100, 1, ''/bin/sh''), (101, 100, ''/usr/bin/ptracerunner'')],
      bxl_calls = [Report_access_event ''clone''
         \<lparr>ev_pids = Some (100, 101, 0), ev_type = ES_EVENT_TYPE_NOTIFY_FORK,
          ev_src_path = ''/usr/bin/ptracerunner'', ev_dst_path = [],
          ev_exec_path = ''/usr/bin/ptracerunner'', ev_mode = 0, ev_error = Some 0\<rparr> None],
      ptrace_log = [PTRACE_SYSCALL 101 0, PTRACE_SYSCALL 100 0], mq_sent = []\<rparr>"
  by (simp add: HandleChildProcess_def FindParentProcess_def)

lemma AllTraceesHaveExited_result:
  "(case AllTraceesHaveExited tracerPid st of
      (shouldExit, st') \<Rightarrow>
        m_traceeTable st' = filter (\<lambda>item. fst item \<noteq> m_traceePid st) (m_traceeTable st) \<and>
        shouldExit = (m_traceeTable st' = []) \<and>
        bxl_calls st' = bxl_calls st @ SendExitReport (m_traceePid st) #
           (if shouldExit then [SendExitReport tracerPid] else []) \<and>
        mq_sent st' = mq_sent st)"
  by (simp add: AllTraceesHaveExited_def Handleexit_def Let_def)

lemma WIFSTOPPED_low: "WIFSTOPPED status \<Longrightarrow> status AND 0x7f = 0x7f"
proof -
  assume "WIFSTOPPED status"
  then have "status AND 0xff = 0x7f" by (simp add: WIFSTOPPED_def)
  then have "(status AND 0xff) AND 0x7f = 0x7f AND (0x7f :: int)" by simp
  then show ?thesis by (simp add: and.assoc)
qed

lemma WIFSTOPPED_not_exited: "WIFSTOPPED status \<Longrightarrow> \<not> WIFEXITED status \<and> \<not> WIFSIGNALED status"
  using WIFSTOPPED_low [of status] by (simp add: WIFEXITED_def WIFSIGNALED_def)

lemma exit_stop_distinct:
  "ptrace_event_stop status PTRACE_EVENT_EXIT \<Longrightarrow>
   \<not> ptrace_event_stop status PTRACE_EVENT_CLONE \<and>
   \<not> ptrace_event_stop status PTRACE_EVENT_FORK \<and>
   \<not> ptrace_event_stop status PTRACE_EVENT_VFORK"
  by (simp add: ptrace_event_stop_def PTRACE_EVENT_CLONE_def PTRACE_EVENT_FORK_def
      PTRACE_EVENT_VFORK_def PTRACE_EVENT_EXIT_def SIGTRAP_def)

lemma AllTraceesHaveExited_fields:
  "m_traceeTable (snd (AllTraceesHaveExited tracerPid st)) =
     filter (\<lambda>item. fst item \<noteq> m_traceePid st) (m_traceeTable st)"
  "mq_sent (snd (AllTraceesHaveExited tracerPid st)) = mq_sent st"
  "fst (AllTraceesHaveExited tracerPid st) =
     (filter (\<lambda>item. fst item \<noteq> m_traceePid st) (m_traceeTable st) = [])"
  by (simp_all add: AllTraceesHaveExited_def Handleexit_def Let_def)

lemma event_loop_Cons_exited:
  assumes "WIFEXITED (we_status e) \<or> WIFSIGNALED (we_status e)"
  shows "event_loop tracerPid prog h (e # es) st =
     (let r = AllTraceesHaveExited tracerPid (st\<lparr>m_traceePid := we_pid e\<rparr>)
      in if fst r then Some (Inr (snd r)) else event_loop tracerPid prog h es (snd r))"
proof (cases "WIFEXITED (we_status e)")
  case True
  then show ?thesis by (simp add: Let_def case_prod_unfold)
next
  case False
  with assms have "WIFSIGNALED (we_status e)" by simp
  with False show ?thesis by (simp add: Let_def case_prod_unfold)
qed

lemma event_loop_Cons_exit_stop:
  assumes "WIFSTOPPED (we_status e)" "ptrace_event_stop (we_status e) PTRACE_EVENT_EXIT"
  shows "event_loop tracerPid prog h (e # es) st =
     (let r = AllTraceesHaveExited tracerPid (st\<lparr>m_traceePid := we_pid e\<rparr>);
          st3 = (snd r)\<lparr>ptrace_log := ptrace_log (snd r) @ [PTRACE_SYSCALL (m_traceePid (snd r)) 0]\<rparr>
      in if fst r then Some (Inr st3) else event_loop tracerPid prog h es st3)"
  using assms WIFSTOPPED_not_exited [OF assms(1)] exit_stop_distinct [OF assms(2)]
  by (simp add: Let_def case_prod_unfold)

text \<open>A neutral status only resumes the tracee (after the handlers, at a seccomp
  stop).\<close>

lemma event_loop_neutral_step:
  assumes neutral: "neutral_status (we_status e)" and frame: "handler_frame h"
  shows "\<exists>st'. event_loop tracerPid prog h (e # es) st = event_loop tracerPid prog h es st' \<and>
           m_traceeTable st' = m_traceeTable st \<and> mq_sent st' = mq_sent st \<and>
           filter lifecycle_call (bxl_calls st') = filter lifecycle_call (bxl_calls st)"
proof -
  let ?s = "we_status e"
  let ?st1 = "st\<lparr>m_traceePid := we_pid e\<rparr>"
  from neutral have stopped: "WIFSTOPPED ?s"
    and nc: "\<not> ptrace_event_stop ?s PTRACE_EVENT_CLONE"
      "\<not> ptrace_event_stop ?s PTRACE_EVENT_FORK"
      "\<not> ptrace_event_stop ?s PTRACE_EVENT_VFORK"
      "\<not> ptrace_event_stop ?s PTRACE_EVENT_EXIT"
    by (simp_all add: neutral_status_def child_status_def)
  note ne = WIFSTOPPED_not_exited [OF stopped]
  from frame have h: "m_traceeTable (h e ?st1) = m_traceeTable st"
    "mq_sent (h e ?st1) = mq_sent st"
    "filter lifecycle_call (bxl_calls (h e ?st1)) = filter lifecycle_call (bxl_calls st)"
    by (simp_all add: handler_frame_def)
  show ?thesis
  proof (cases "ptrace_event_stop ?s PTRACE_EVENT_SECCOMP")
    case True
    let ?st' = "(h e ?st1)\<lparr>ptrace_log := ptrace_log (h e ?st1) @ [PTRACE_CONT (m_traceePid (h e ?st1))]\<rparr>"
    have "event_loop tracerPid prog h (e # es) st = event_loop tracerPid prog h es ?st'"
      using stopped ne nc True by (simp add: Let_def)
    then show ?thesis using h by (intro exI [of _ ?st']) simp
  next
    case no_seccomp: False
    show ?thesis
    proof (cases "WSTOPSIG ?s AND 0x80 = 0")
      case True
      let ?st' = "?st1\<lparr>ptrace_log := ptrace_log ?st1 @ [PTRACE_SYSCALL (m_traceePid ?st1) (WSTOPSIG ?s)]\<rparr>"
      have "event_loop tracerPid prog h (e # es) st = event_loop tracerPid prog h es ?st'"
        using stopped ne nc no_seccomp True by (simp add: Let_def)
      then show ?thesis by (intro exI [of _ ?st']) simp
    next
      case False
      let ?st' = "?st1\<lparr>ptrace_log := ptrace_log ?st1 @ [PTRACE_SYSCALL (m_traceePid ?st1) 0]\<rparr>"
      have "event_loop tracerPid prog h (e # es) st = event_loop tracerPid prog h es ?st'"
        using stopped ne nc no_seccomp False by (simp add: Let_def)
      then show ?thesis by (intro exI [of _ ?st']) simp
    qed
  qed
qed

lemma AllTraceesHaveExited_calls:
  "bxl_calls (snd (AllTraceesHaveExited tracerPid st)) =
     bxl_calls st @ SendExitReport (m_traceePid st) #
       (if filter (\<lambda>item. fst item \<noteq> m_traceePid st) (m_traceeTable st) = []
        then [SendExitReport tracerPid] else [])"
  by (simp add: AllTraceesHaveExited_def Handleexit_def Let_def)

lemma event_loop_exit_step_calls:
  assumes "exit_status (we_status e)"
  shows "\<exists>st2. mq_sent st2 = mq_sent st \<and>
           m_traceeTable st2 = filter (\<lambda>item. fst item \<noteq> we_pid e) (m_traceeTable st) \<and>
           bxl_calls st2 = bxl_calls st @ SendExitReport (we_pid e) #
              (if m_traceeTable st2 = [] then [SendExitReport tracerPid] else []) \<and>
           event_loop tracerPid prog h (e # es) st =
             (if m_traceeTable st2 = [] then Some (Inr st2)
              else event_loop tracerPid prog h es st2)"
proof -
  let ?st1 = "st\<lparr>m_traceePid := we_pid e\<rparr>"
  let ?r = "AllTraceesHaveExited tracerPid ?st1"
  let ?st2 = "snd ?r"
  let ?st3 = "?st2\<lparr>ptrace_log := ptrace_log ?st2 @ [PTRACE_SYSCALL (m_traceePid ?st2) 0]\<rparr>"
  have table: "m_traceeTable ?st2 = filter (\<lambda>item. fst item \<noteq> we_pid e) (m_traceeTable st)"
    and mq: "mq_sent ?st2 = mq_sent st"
    and flag: "fst ?r = (m_traceeTable ?st2 = [])"
    by (simp_all add: AllTraceesHaveExited_fields)
  have calls: "bxl_calls ?st2 = bxl_calls st @ SendExitReport (we_pid e) #
      (if m_traceeTable ?st2 = [] then [SendExitReport tracerPid] else [])"
    unfolding table by (simp add: AllTraceesHaveExited_calls)
  show ?thesis
  proof (cases "WIFEXITED (we_status e) \<or> WIFSIGNALED (we_status e)")
    case True
    have "event_loop tracerPid prog h (e # es) st =
        (if m_traceeTable ?st2 = [] then Some (Inr ?st2) else event_loop tracerPid prog h es ?st2)"
      unfolding event_loop_Cons_exited [OF True] Let_def flag ..
    then show ?thesis using table mq calls by (intro exI [of _ ?st2]) simp
  next
    case False
    with assms have stop: "WIFSTOPPED (we_status e)"
      "ptrace_event_stop (we_status e) PTRACE_EVENT_EXIT"
      by (simp_all add: exit_status_def)
    have "event_loop tracerPid prog h (e # es) st =
        (if m_traceeTable ?st2 = [] then Some (Inr ?st3) else event_loop tracerPid prog h es ?st3)"
      unfolding event_loop_Cons_exit_stop [OF stop] Let_def flag ..
    then show ?thesis using table mq calls by (intro exI [of _ ?st3]) simp
  qed
qed

lemma neutral_not_exit: "neutral_status s \<Longrightarrow> \<not> exit_status s"
  using WIFSTOPPED_not_exited [of s] by (auto simp add: neutral_status_def exit_status_def)

lemma exit_pids_Cons:
  "exit_pids (e # es) = (if exit_status (we_status e) then we_pid e # exit_pids es else exit_pids es)"
  by (simp add: exit_pids_def)

lemma event_loop_neutral_prefix:
  assumes frame: "handler_frame h" and neutral: "\<forall>e \<in> set pre. neutral_status (we_status e)"
  shows "\<exists>st'. event_loop tracerPid prog h (pre @ es) st = event_loop tracerPid prog h es st' \<and>
           m_traceeTable st' = m_traceeTable st \<and> mq_sent st' = mq_sent st \<and>
           filter lifecycle_call (bxl_calls st') = filter lifecycle_call (bxl_calls st)"
  using neutral
proof (induction pre arbitrary: st)
  case Nil
  show ?case by (intro exI [of _ st]) simp
next
  case (Cons e pre)
  from Cons.prems have "neutral_status (we_status e)" by simp
  from event_loop_neutral_step [OF this frame, of tracerPid prog "pre @ es" st]
  obtain st1 where st1: "event_loop tracerPid prog h (e # pre @ es) st =
      event_loop tracerPid prog h (pre @ es) st1"
    "m_traceeTable st1 = m_traceeTable st" "mq_sent st1 = mq_sent st"
    "filter lifecycle_call (bxl_calls st1) = filter lifecycle_call (bxl_calls st)"
    by blast
  from Cons.IH [of st1] Cons.prems
  obtain st' where "event_loop tracerPid prog h (pre @ es) st1 = event_loop tracerPid prog h es st'"
    "m_traceeTable st' = m_traceeTable st1" "mq_sent st' = mq_sent st1"
    "filter lifecycle_call (bxl_calls st') = filter lifecycle_call (bxl_calls st1)"
    by auto
  with st1 show ?case by (intro exI [of _ st']) simp
qed

lemma event_loop_retire:
  assumes frame: "handler_frame h"
    and kinds: "\<forall>e \<in> set es. neutral_status (we_status e) \<or> exit_status (we_status e)"
    and nonempty: "m_traceeTable st \<noteq> []"
    and covered: "fst ` set (m_traceeTable st) \<subseteq> set (exit_pids es)"
  shows "\<exists>final k. event_loop tracerPid prog h es st = Some (Inr final) \<and>
           m_traceeTable final = [] \<and> mq_sent final = mq_sent st \<and>
           k < length (exit_pids es) \<and>
           fst ` set (m_traceeTable st) \<subseteq> set (take (Suc k) (exit_pids es)) \<and>
           \<not> fst ` set (m_traceeTable st) \<subseteq> set (take k (exit_pids es)) \<and>
           filter lifecycle_call (bxl_calls final) =
             filter lifecycle_call (bxl_calls st) @
             map SendExitReport (take (Suc k) (exit_pids es)) @ [SendExitReport tracerPid]"
  using kinds nonempty covered
proof (induction es arbitrary: st)
  case Nil
  then show ?case by (simp add: exit_pids_def)
next
  case (Cons e es)
  show ?case
  proof (cases "exit_status (we_status e)")
    case False
    with Cons.prems(1) have neutral: "neutral_status (we_status e)" by simp
    from event_loop_neutral_step [OF neutral frame, of tracerPid prog es st]
    obtain st1 where st1: "event_loop tracerPid prog h (e # es) st = event_loop tracerPid prog h es st1"
      "m_traceeTable st1 = m_traceeTable st" "mq_sent st1 = mq_sent st"
      "filter lifecycle_call (bxl_calls st1) = filter lifecycle_call (bxl_calls st)"
      by blast
    have pids: "exit_pids (e # es) = exit_pids es" using False by (simp add: exit_pids_Cons)
    from Cons.IH [of st1] Cons.prems st1(2) pids
    obtain final k where "event_loop tracerPid prog h es st1 = Some (Inr final)"
      "m_traceeTable final = []" "mq_sent final = mq_sent st1"
      "k < length (exit_pids es)"
      "fst ` set (m_traceeTable st1) \<subseteq> set (take (Suc k) (exit_pids es))"
      "\<not> fst ` set (m_traceeTable st1) \<subseteq> set (take k (exit_pids es))"
      "filter lifecycle_call (bxl_calls final) =
         filter lifecycle_call (bxl_calls st1) @
         map SendExitReport (take (Suc k) (exit_pids es)) @ [SendExitReport tracerPid]"
      by auto
    then show ?thesis
      unfolding pids st1(1) using st1(2,3,4) by (intro exI [of _ final] exI [of _ k]) simp
  next
    case True
    let ?R = "m_traceeTable st"
    have pids: "exit_pids (e # es) = we_pid e # exit_pids es"
      using True by (simp add: exit_pids_Cons)
    from event_loop_exit_step_calls [OF True, of st tracerPid prog h es]
    obtain st2 where st2: "mq_sent st2 = mq_sent st"
      "m_traceeTable st2 = filter (\<lambda>item. fst item \<noteq> we_pid e) ?R"
      "bxl_calls st2 = bxl_calls st @ SendExitReport (we_pid e) #
         (if m_traceeTable st2 = [] then [SendExitReport tracerPid] else [])"
      "event_loop tracerPid prog h (e # es) st =
         (if m_traceeTable st2 = [] then Some (Inr st2) else event_loop tracerPid prog h es st2)"
      by blast
    show ?thesis
    proof (cases "m_traceeTable st2 = []")
      case empty: True
      then have all: "fst ` set ?R \<subseteq> {we_pid e}"
        using st2(2) by (auto simp add: filter_empty_conv)
      have "\<not> fst ` set ?R \<subseteq> {}" using Cons.prems(2) by auto
      then show ?thesis
        unfolding pids using st2 empty all
        by (intro exI [of _ st2] exI [of _ 0]) simp
    next
      case rest: False
      have sub: "fst ` set (m_traceeTable st2) \<subseteq> set (exit_pids es)"
        using Cons.prems(3) st2(2) unfolding pids by auto
      from Cons.IH [of st2] Cons.prems(1) rest sub
      obtain final k where fk: "event_loop tracerPid prog h es st2 = Some (Inr final)"
        "m_traceeTable final = []" "mq_sent final = mq_sent st2"
        "k < length (exit_pids es)"
        "fst ` set (m_traceeTable st2) \<subseteq> set (take (Suc k) (exit_pids es))"
        "\<not> fst ` set (m_traceeTable st2) \<subseteq> set (take k (exit_pids es))"
        "filter lifecycle_call (bxl_calls final) =
           filter lifecycle_call (bxl_calls st2) @
           map SendExitReport (take (Suc k) (exit_pids es)) @ [SendExitReport tracerPid]"
        by auto
      have in1: "fst ` set ?R \<subseteq> set (take (Suc (Suc k)) (we_pid e # exit_pids es))"
        using fk(5) st2(2) by auto
      have out1: "\<not> fst ` set ?R \<subseteq> set (take (Suc k) (we_pid e # exit_pids es))"
        using fk(6) st2(2) by auto
      show ?thesis
        unfolding pids using st2 rest fk(1-4,7) in1 out1
        by (intro exI [of _ final] exI [of _ "Suc k"]) simp
    qed
  qed
qed

lemma event_loop_child_step_state:
  assumes "child_status (we_status e)"
  shows "event_loop tracerPid prog h (e # es) st =
           event_loop tracerPid prog h es
             (HandleChildProcess prog (child_syscall (we_status e)) (we_eventmsg e)
                (st\<lparr>m_traceePid := we_pid e\<rparr>))"
proof -
  from assms have stopped: "WIFSTOPPED (we_status e)" by (simp add: child_status_def)
  note ne = WIFSTOPPED_not_exited [OF stopped]
  show ?thesis
  proof (cases "ptrace_event_stop (we_status e) PTRACE_EVENT_CLONE")
    case True
    with stopped ne show ?thesis by (simp add: Let_def child_syscall_def)
  next
    case no_clone: False
    show ?thesis
    proof (cases "ptrace_event_stop (we_status e) PTRACE_EVENT_FORK")
      case True
      with stopped ne no_clone show ?thesis by (simp add: Let_def child_syscall_def)
    next
      case False
      with assms no_clone have "ptrace_event_stop (we_status e) PTRACE_EVENT_VFORK"
        by (simp add: child_status_def)
      with stopped ne no_clone False show ?thesis by (simp add: Let_def child_syscall_def)
    qed
  qed
qed

text \<open>Whenever the new pid is not in the registry, which is the case for a pid the
  tracer has not seen before, \<open>HandleChildProcess\<close> takes the fallback values.\<close>

lemma HandleChildProcess_fallback:
  assumes "newPid \<notin> fst ` set (m_traceeTable st)"
  shows "HandleChildProcess programPath syscall newPid st =
     st\<lparr>bxl_calls := bxl_calls st @ [Report_access_event syscall
             \<lparr>ev_pids = Some (m_traceePid st, newPid, 0),
              ev_type = ES_EVENT_TYPE_NOTIFY_FORK,
              ev_src_path = programPath, ev_dst_path = [],
              ev_exec_path = programPath, ev_mode = 0, ev_error = Some 0\<rparr> None],
         m_traceeTable := m_traceeTable st @ [(newPid, m_traceePid st, programPath)],
         ptrace_log := ptrace_log st @
           [PTRACE_SYSCALL newPid 0, PTRACE_SYSCALL (m_traceePid st) 0]\<rparr>"
proof -
  have "find (\<lambda>item. fst item = newPid) (m_traceeTable st) = None"
    using assms by (force simp add: find_None_iff)
  then show ?thesis by (simp add: HandleChildProcess_def FindParentProcess_def)
qed

text \<open>
  A whole session. The root \<open>P1\<close> is seeded; after any neutral stops its clone,
  fork or vfork of \<open>P2\<close> is observed; then neutral stops and exit notifications
  follow in any order, among which both pids exit.
\<close>

lemma session_lifecycle:
  assumes frame: "handler_frame h" and distinct: "P1 \<noteq> P2"
    and pre: "\<forall>e \<in> set pre. neutral_status (we_status e)"
    and child: "child_status c"
    and post: "\<forall>e \<in> set post. neutral_status (we_status e) \<or> exit_status (we_status e)"
    and both: "{P1, P2} \<subseteq> set (exit_pids post)"
  shows "(\<exists>mid. event_loop tracerPid prog h
             (pre @ \<lparr>we_pid = P1, we_status = c, we_eventmsg = P2\<rparr> # post)
             \<lparr>m_traceePid = P1, m_traceeTable = [(P1, parent, exe)], bxl_calls = [],
              ptrace_log = [PTRACE_SYSCALL P1 0], mq_sent = []\<rparr>
           = event_loop tracerPid prog h post mid \<and>
           m_traceeTable mid = [(P1, parent, exe), (P2, P1, prog)]) \<and>
         (\<exists>final k. AttachToProcess tracerPid prog h
             (pre @ \<lparr>we_pid = P1, we_status = c, we_eventmsg = P2\<rparr> # post) P1 parent exe
             = Some (Inr final) \<and>
           m_traceeTable final = [] \<and> mq_sent final = [Mq_exitnotification tracerPid] \<and>
           k < length (exit_pids post) \<and>
           {P1, P2} \<subseteq> set (take (Suc k) (exit_pids post)) \<and>
           \<not> {P1, P2} \<subseteq> set (take k (exit_pids post)) \<and>
           filter lifecycle_call (bxl_calls final) =
             Report_access_event (child_syscall c)
               \<lparr>ev_pids = Some (P1, P2, 0), ev_type = ES_EVENT_TYPE_NOTIFY_FORK,
                ev_src_path = prog, ev_dst_path = [], ev_exec_path = prog,
                ev_mode = 0, ev_error = Some 0\<rparr> None #
             map SendExitReport (take (Suc k) (exit_pids post)) @ [SendExitReport tracerPid])"
proof -
  let ?st0 = "\<lparr>m_traceePid = P1, m_traceeTable = [(P1, parent, exe)], bxl_calls = [],
               ptrace_log = [PTRACE_SYSCALL P1 0], mq_sent = []\<rparr>"
  let ?ec = "\<lparr>we_pid = P1, we_status = c, we_eventmsg = P2\<rparr>"
  let ?fork = "Report_access_event (child_syscall c)
               \<lparr>ev_pids = Some (P1, P2, 0), ev_type = ES_EVENT_TYPE_NOTIFY_FORK,
                ev_src_path = prog, ev_dst_path = [], ev_exec_path = prog,
                ev_mode = 0, ev_error = Some 0\<rparr> None"
  from event_loop_neutral_prefix [OF frame pre, of tracerPid prog "?ec # post" ?st0]
  obtain sta where sta: "event_loop tracerPid prog h (pre @ ?ec # post) ?st0 =
      event_loop tracerPid prog h (?ec # post) sta"
    "m_traceeTable sta = [(P1, parent, exe)]" "mq_sent sta = []"
    "filter lifecycle_call (bxl_calls sta) = []"
    by auto
  let ?stb = "sta\<lparr>m_traceePid := P1\<rparr>"
  let ?mid = "HandleChildProcess prog (child_syscall c) P2 ?stb"
  have step: "event_loop tracerPid prog h (?ec # post) sta = event_loop tracerPid prog h post ?mid"
    using event_loop_child_step_state [of ?ec tracerPid prog h post sta] child by simp
  have "P2 \<notin> fst ` set (m_traceeTable ?stb)" using distinct sta(2) by simp
  from HandleChildProcess_fallback [OF this, of prog "child_syscall c"]
  have mid: "m_traceeTable ?mid = [(P1, parent, exe), (P2, P1, prog)]"
    "mq_sent ?mid = []"
    "filter lifecycle_call (bxl_calls ?mid) = [?fork]"
    using sta(2,3,4) by simp_all
  have first: "event_loop tracerPid prog h (pre @ ?ec # post) ?st0 =
      event_loop tracerPid prog h post ?mid"
    using sta(1) step by simp
  have "m_traceeTable ?mid \<noteq> []" "fst ` set (m_traceeTable ?mid) \<subseteq> set (exit_pids post)"
    using mid(1) both by simp_all
  from event_loop_retire [OF frame post this, of tracerPid prog]
  obtain final k where fk: "event_loop tracerPid prog h post ?mid = Some (Inr final)"
    "m_traceeTable final = []" "mq_sent final = mq_sent ?mid"
    "k < length (exit_pids post)"
    "fst ` set (m_traceeTable ?mid) \<subseteq> set (take (Suc k) (exit_pids post))"
    "\<not> fst ` set (m_traceeTable ?mid) \<subseteq> set (take k (exit_pids post))"
    "filter lifecycle_call (bxl_calls final) =
       filter lifecycle_call (bxl_calls ?mid) @
       map SendExitReport (take (Suc k) (exit_pids post)) @ [SendExitReport tracerPid]"
    by blast
  let ?final = "final\<lparr>mq_sent := mq_sent final @ [Mq_exitnotification tracerPid]\<rparr>"
  have attach: "AttachToProcess tracerPid prog h (pre @ ?ec # post) P1 parent exe = Some (Inr ?final)"
    using first fk(1) by (simp add: AttachToProcess_def)
  have "{P1, P2} \<subseteq> set (take (Suc k) (exit_pids post))"
    "\<not> {P1, P2} \<subseteq> set (take k (exit_pids post))"
    using fk(5,6) mid(1) by simp_all
  then have second: "\<exists>final k. AttachToProcess tracerPid prog h (pre @ ?ec # post) P1 parent exe
             = Some (Inr final) \<and>
           m_traceeTable final = [] \<and> mq_sent final = [Mq_exitnotification tracerPid] \<and>
           k < length (exit_pids post) \<and>
           {P1, P2} \<subseteq> set (take (Suc k) (exit_pids post)) \<and>
           \<not> {P1, P2} \<subseteq> set (take k (exit_pids post)) \<and>
           filter lifecycle_call (bxl_calls final) =
             ?fork # map SendExitReport (take (Suc k) (exit_pids post)) @ [SendExitReport tracerPid]"
    using attach fk(2,3,4,7) mid(2,3)
    by (intro exI [of _ ?final] exI [of _ k]) simp
  from first mid(1) second show ?thesis by blast
qed

text \<open>
  C7. \<open>AllTraceesHaveExited\<close> removes the entries of the pid being serviced and no
  other, returns true exactly when the registry is empty afterwards, and sends the
  exit report for the tracer's own pid exactly in that case (after the exit report
  for the pid being serviced, which it always sends). For a session of
  \<open>AttachToProcess\<close> on the root \<open>P1\<close>, in which, after any stops that only resume
  the tracee (seccomp stops with their handlers, signal-delivery stops, syscall stops),
  the clone, fork or vfork of \<open>P2\<close> is observed, and then such stops and exit
  notifications (normal exit, death by signal, exit-event stop) follow in any order
  with both pids among the exits: the loop reaches the events after the child event
  with the registry holding exactly the root and the child, \<open>P2\<close> with parent
  \<open>P1\<close>; \<open>AttachToProcess\<close> returns at the first exit notification by which
  both pids have exited, with the registry empty and exactly one notification on the
  queue, for the tracer's own pid; and the fork and exit reports it has made are, in
  this order, the fork event for \<open>P2\<close>, one exit report for each exit notification
  up to that one, and the exit report for the tracer's own pid. The handlers behind
  \<open>HandleSysCallGeneric\<close> are any that leave the registry, the queue and the fork
  and exit reports alone.
\<close>

theorem C7_registry_lifecycle:
  "(case AllTraceesHaveExited tracerPid st of
      (shouldExit, st') \<Rightarrow>
        m_traceeTable st' = filter (\<lambda>item. fst item \<noteq> m_traceePid st) (m_traceeTable st) \<and>
        shouldExit = (m_traceeTable st' = []) \<and>
        bxl_calls st' = bxl_calls st @ SendExitReport (m_traceePid st) #
           (if shouldExit then [SendExitReport tracerPid] else []) \<and>
        mq_sent st' = mq_sent st) \<and>
   ((\<forall>e st. m_traceeTable (h e st) = m_traceeTable st \<and> mq_sent (h e st) = mq_sent st \<and>
            filter lifecycle_call (bxl_calls (h e st)) = filter lifecycle_call (bxl_calls st)) \<and>
    P1 \<noteq> P2 \<and>
    (\<forall>e \<in> set pre. neutral_status (we_status e)) \<and>
    child_status c \<and>
    (\<forall>e \<in> set post. neutral_status (we_status e) \<or> exit_status (we_status e)) \<and>
    {P1, P2} \<subseteq> set (exit_pids post) \<longrightarrow>
      (\<exists>mid. event_loop tracerPid prog h
             (pre @ \<lparr>we_pid = P1, we_status = c, we_eventmsg = P2\<rparr> # post)
             \<lparr>m_traceePid = P1, m_traceeTable = [(P1, parent, exe)], bxl_calls = [],
              ptrace_log = [PTRACE_SYSCALL P1 0], mq_sent = []\<rparr>
           = event_loop tracerPid prog h post mid \<and>
           m_traceeTable mid = [(P1, parent, exe), (P2, P1, prog)]) \<and>
      (\<exists>final k. AttachToProcess tracerPid prog h
             (pre @ \<lparr>we_pid = P1, we_status = c, we_eventmsg = P2\<rparr> # post) P1 parent exe
             = Some (Inr final) \<and>
           m_traceeTable final = [] \<and> mq_sent final = [Mq_exitnotification tracerPid] \<and>
           k < length (exit_pids post) \<and>
           {P1, P2} \<subseteq> set (take (Suc k) (exit_pids post)) \<and>
           \<not> {P1, P2} \<subseteq> set (take k (exit_pids post)) \<and>
           filter lifecycle_call (bxl_calls final) =
             Report_access_event (child_syscall c)
               \<lparr>ev_pids = Some (P1, P2, 0), ev_type = ES_EVENT_TYPE_NOTIFY_FORK,
                ev_src_path = prog, ev_dst_path = [], ev_exec_path = prog,
                ev_mode = 0, ev_error = Some 0\<rparr> None #
             map SendExitReport (take (Suc k) (exit_pids post)) @ [SendExitReport tracerPid]))"
proof (rule conjI [OF _ impI])
  show "case AllTraceesHaveExited tracerPid st of
      (shouldExit, st') \<Rightarrow>
        m_traceeTable st' = filter (\<lambda>item. fst item \<noteq> m_traceePid st) (m_traceeTable st) \<and>
        shouldExit = (m_traceeTable st' = []) \<and>
        bxl_calls st' = bxl_calls st @ SendExitReport (m_traceePid st) #
           (if shouldExit then [SendExitReport tracerPid] else []) \<and>
        mq_sent st' = mq_sent st"
    by (rule AllTraceesHaveExited_result)
next
  assume a: "(\<forall>e st. m_traceeTable (h e st) = m_traceeTable st \<and> mq_sent (h e st) = mq_sent st \<and>
            filter lifecycle_call (bxl_calls (h e st)) = filter lifecycle_call (bxl_calls st)) \<and>
    P1 \<noteq> P2 \<and>
    (\<forall>e \<in> set pre. neutral_status (we_status e)) \<and>
    child_status c \<and>
    (\<forall>e \<in> set post. neutral_status (we_status e) \<or> exit_status (we_status e)) \<and>
    {P1, P2} \<subseteq> set (exit_pids post)"
  then have frame: "handler_frame h" by (simp add: handler_frame_def)
  from a have rest: "P1 \<noteq> P2" "\<forall>e \<in> set pre. neutral_status (we_status e)" "child_status c"
    "\<forall>e \<in> set post. neutral_status (we_status e) \<or> exit_status (we_status e)"
    "{P1, P2} \<subseteq> set (exit_pids post)" by blast+
  from session_lifecycle [OF frame rest, where tracerPid = tracerPid and prog = prog
      and parent = parent and exe = exe]
  show "(\<exists>mid. event_loop tracerPid prog h
             (pre @ \<lparr>we_pid = P1, we_status = c, we_eventmsg = P2\<rparr> # post)
             \<lparr>m_traceePid = P1, m_traceeTable = [(P1, parent, exe)], bxl_calls = [],
              ptrace_log = [PTRACE_SYSCALL P1 0], mq_sent = []\<rparr>
           = event_loop tracerPid prog h post mid \<and>
           m_traceeTable mid = [(P1, parent, exe), (P2, P1, prog)]) \<and>
      (\<exists>final k. AttachToProcess tracerPid prog h
             (pre @ \<lparr>we_pid = P1, we_status = c, we_eventmsg = P2\<rparr> # post) P1 parent exe
             = Some (Inr final) \<and>
           m_traceeTable final = [] \<and> mq_sent final = [Mq_exitnotification tracerPid] \<and>
           k < length (exit_pids post) \<and>
           {P1, P2} \<subseteq> set (take (Suc k) (exit_pids post)) \<and>
           \<not> {P1, P2} \<subseteq> set (take k (exit_pids post)) \<and>
           filter lifecycle_call (bxl_calls final) =
             Report_access_event (child_syscall c)
               \<lparr>ev_pids = Some (P1, P2, 0), ev_type = ES_EVENT_TYPE_NOTIFY_FORK,
                ev_src_path = prog, ev_dst_path = [], ev_exec_path = prog,
                ev_mode = 0, ev_error = Some 0\<rparr> None #
             map SendExitReport (take (Suc k) (exit_pids post)) @ [SendExitReport tracerPid])" .
qed

text \<open>The statuses of the session below: the stop of \<open>PTRACE_INTERRUPT\<close>
  (\<open>0x80057F\<close>), a syscall stop (\<open>0x857F\<close>), a seccomp stop (\<open>0x7057F\<close>), a
  \<open>SIGSTOP\<close> delivery (\<open>0x137F\<close>), the clone event (\<open>0x3057F\<close>), the exit event
  (\<open>0x6057F\<close>) and a normal exit (\<open>0\<close>).\<close>

lemma session_statuses:
  "neutral_status 0x80057F" "neutral_status 0x857F" "neutral_status 0x7057F"
  "neutral_status 0x137F" "child_status 0x3057F" "exit_status 0x6057F" "exit_status 0"
  "\<not> exit_status 0x80057F" "\<not> exit_status 0x857F" "\<not> exit_status 0x7057F"
  "ptrace_event_stop 0x3057F PTRACE_EVENT_CLONE"
  by (simp_all add: neutral_status_def child_status_def exit_status_def WIFEXITED_def
      WIFSIGNALED_def WIFSTOPPED_def ptrace_event_stop_def PTRACE_EVENT_CLONE_def
      PTRACE_EVENT_FORK_def PTRACE_EVENT_VFORK_def PTRACE_EVENT_EXIT_def SIGTRAP_def)

text \<open>The root 100 is interrupted, makes a syscall and clones 101; 101 starts with a
  \<open>SIGSTOP\<close> and makes a syscall; the root exits first, then 101. The handler records
  a \<open>stat\<close> report at every seccomp stop. The tracer 50 ends at the exit event of
  101, having sent the fork event, the two exit reports and its own.\<close>

theorem C7_witness:
  "\<exists>final. AttachToProcess 50 ''/usr/bin/ptracerunner''
       (\<lambda>e st. st\<lparr>bxl_calls := bxl_calls st @
          [Report_access_path ''stat'' ES_EVENT_TYPE_NOTIFY_STAT ''/etc/passwd'' 0 O_NOFOLLOW 0
             True (m_traceePid st)]\<rparr>)
       ([\<lparr>we_pid = 100, we_status = 0x80057F, we_eventmsg = 0\<rparr>,
         \<lparr>we_pid = 100, we_status = 0x857F, we_eventmsg = 0\<rparr>,
         \<lparr>we_pid = 100, we_status = 0x7057F, we_eventmsg = 0\<rparr>] @
        \<lparr>we_pid = 100, we_status = 0x3057F, we_eventmsg = 101\<rparr> #
        [\<lparr>we_pid = 101, we_status = 0x137F, we_eventmsg = 0\<rparr>,
         \<lparr>we_pid = 101, we_status = 0x7057F, we_eventmsg = 0\<rparr>,
         \<lparr>we_pid = 100, we_status = 0x857F, we_eventmsg = 0\<rparr>,
         \<lparr>we_pid = 100, we_status = 0x6057F, we_eventmsg = 0\<rparr>,
         \<lparr>we_pid = 101, we_status = 0x857F, we_eventmsg = 0\<rparr>,
         \<lparr>we_pid = 101, we_status = 0x6057F, we_eventmsg = 0\<rparr>]) 100 1 ''/bin/sh''
       = Some (Inr final)
     \<and> m_traceeTable final = [] \<and> mq_sent final = [Mq_exitnotification 50]
     \<and> filter lifecycle_call (bxl_calls final) =
         [Report_access_event ''clone''
            \<lparr>ev_pids = Some (100, 101, 0), ev_type = ES_EVENT_TYPE_NOTIFY_FORK,
             ev_src_path = ''/usr/bin/ptracerunner'', ev_dst_path = [],
             ev_exec_path = ''/usr/bin/ptracerunner'', ev_mode = 0, ev_error = Some 0\<rparr> None,
          SendExitReport 100, SendExitReport 101, SendExitReport 50]"
proof -
  let ?h = "\<lambda>e st. st\<lparr>bxl_calls := bxl_calls st @
          [Report_access_path ''stat'' ES_EVENT_TYPE_NOTIFY_STAT ''/etc/passwd'' 0 O_NOFOLLOW 0
             True (m_traceePid st)]\<rparr>"
  let ?pre = "[\<lparr>we_pid = 100, we_status = 0x80057F, we_eventmsg = 0\<rparr>,
         \<lparr>we_pid = 100, we_status = 0x857F, we_eventmsg = 0\<rparr>,
         \<lparr>we_pid = 100, we_status = 0x7057F, we_eventmsg = 0\<rparr>]"
  let ?post = "[\<lparr>we_pid = 101, we_status = 0x137F, we_eventmsg = 0\<rparr>,
         \<lparr>we_pid = 101, we_status = 0x7057F, we_eventmsg = 0\<rparr>,
         \<lparr>we_pid = 100, we_status = 0x857F, we_eventmsg = 0\<rparr>,
         \<lparr>we_pid = 100, we_status = 0x6057F, we_eventmsg = 0\<rparr>,
         \<lparr>we_pid = 101, we_status = 0x857F, we_eventmsg = 0\<rparr>,
         \<lparr>we_pid = 101, we_status = 0x6057F, we_eventmsg = 0\<rparr>]"
  have pids: "exit_pids ?post = [100, 101]"
    by (simp add: exit_pids_def session_statuses neutral_not_exit)
  have hyp: "(\<forall>e st. m_traceeTable (?h e st) = m_traceeTable st \<and> mq_sent (?h e st) = mq_sent st \<and>
            filter lifecycle_call (bxl_calls (?h e st)) = filter lifecycle_call (bxl_calls st)) \<and>
    (100 :: pid_t) \<noteq> 101 \<and>
    (\<forall>e \<in> set ?pre. neutral_status (we_status e)) \<and>
    child_status 0x3057F \<and>
    (\<forall>e \<in> set ?post. neutral_status (we_status e) \<or> exit_status (we_status e)) \<and>
    {100, 101} \<subseteq> set (exit_pids ?post)"
    unfolding pids by (simp add: session_statuses)
  note C7_registry_lifecycle [where h = ?h and ?P1.0 = 100 and ?P2.0 = 101 and pre = ?pre
      and c = "0x3057F" and post = ?post and tracerPid = 50
      and prog = "''/usr/bin/ptracerunner''" and parent = 1 and exe = "''/bin/sh''",
      THEN conjunct2, THEN mp, OF hyp, THEN conjunct2, unfolded pids]
  then obtain final k where fk:
    "AttachToProcess 50 ''/usr/bin/ptracerunner'' ?h
       (?pre @ \<lparr>we_pid = 100, we_status = 0x3057F, we_eventmsg = 101\<rparr> # ?post) 100 1 ''/bin/sh''
       = Some (Inr final)"
    "m_traceeTable final = []" "mq_sent final = [Mq_exitnotification 50]"
    "k < length [100, 101 :: pid_t]"
    "{100, 101} \<subseteq> set (take (Suc k) [100, 101 :: pid_t])"
    "filter lifecycle_call (bxl_calls final) =
       Report_access_event (child_syscall 0x3057F)
            \<lparr>ev_pids = Some (100, 101, 0), ev_type = ES_EVENT_TYPE_NOTIFY_FORK,
             ev_src_path = ''/usr/bin/ptracerunner'', ev_dst_path = [],
             ev_exec_path = ''/usr/bin/ptracerunner'', ev_mode = 0, ev_error = Some 0\<rparr> None #
       map SendExitReport (take (Suc k) [100, 101]) @ [SendExitReport 50]"
    by blast
  from fk(4) have "k = 0 \<or> k = 1" by (simp, arith)
  with fk(5) have "k = 1" by auto
  with fk show ?thesis
    by (intro exI [of _ final]) (simp add: child_syscall_def session_statuses numeral_2_eq_2)
qed

subsection \<open>Path resolution\<close>

lemma find_prev_slash_less: "find_prev_slash s p = Some q \<Longrightarrow> q < p"
  by (induction p) (auto split: if_splits)

lemma char_at_slash_less: "char_at s p = CHR ''/'' \<Longrightarrow> p < length s"
  by (auto simp add: char_at_def split: if_splits)

lemma char_at_nonnull_less: "char_at s p \<noteq> CHR 0x00 \<Longrightarrow> p < length s"
  by (auto simp add: char_at_def split: if_splits)

lemma finite_short_strings: "finite {t :: string. length t < n}"
proof -
  have "{t :: string. length t < n} \<subseteq> {t. set t \<subseteq> UNIV \<and> length t \<le> n}" by auto
  moreover have "finite {t :: string. set t \<subseteq> UNIV \<and> length t \<le> n}"
    by (rule finite_lists_length_le) simp
  ultimately show ?thesis by (rule finite_subset)
qed

lemma wf_resolve_order: "wf resolve_order"
  unfolding resolve_order_def by (intro wf_inv_image wf_lex_prod wf_less_than)

lemma resolve_order_shorter:
  "rs_visited st' = rs_visited st \<Longrightarrow> length (rs_fullpath st') < length (rs_fullpath st)
   \<Longrightarrow> (st', st) \<in> resolve_order"
  by (simp add: resolve_order_def resolve_measure_def)

lemma resolve_order_advance:
  "rs_visited st' = rs_visited st \<Longrightarrow> rs_fullpath st' = rs_fullpath st \<Longrightarrow>
   rs_pFullpath st < length (rs_fullpath st) \<Longrightarrow> rs_pFullpath st' = rs_pFullpath st + 1
   \<Longrightarrow> (st', st) \<in> resolve_order"
  by (simp add: resolve_order_def resolve_measure_def)

lemma card_unvisited_less:
  assumes "length (t :: string) < PATH_MAX" "t \<notin> V"
  shows "card ({t. length t < PATH_MAX} - insert t V) < card ({t. length t < PATH_MAX} - V)"
proof -
  have "{t. length t < PATH_MAX} - insert t V \<subset> {t. length t < PATH_MAX} - V"
    using assms by auto
  then show ?thesis
    by (rule psubset_card_mono [rotated]) (rule finite_Diff, rule finite_short_strings)
qed

lemma resolve_order_visit:
  "rs_visited st' = insert t (rs_visited st) \<Longrightarrow> t \<notin> rs_visited st \<Longrightarrow> length t < PATH_MAX
   \<Longrightarrow> (st', st) \<in> resolve_order"
  using card_unvisited_less [of t "rs_visited st"]
  by (simp add: resolve_order_def resolve_measure_def)

lemma length_shift_left:
  "p < length s \<Longrightarrow> n \<le> p + 1 \<Longrightarrow> 0 < n \<Longrightarrow> length (shift_left s (p + 1) n) < length s"
  by (simp add: shift_left_def)

lemma find_prev_slash_Some:
  "char_at s 0 = CHR ''/'' \<Longrightarrow> 0 < p \<Longrightarrow> \<exists>q. find_prev_slash s p = Some q"
proof (induction p)
  case 0
  then show ?case by simp
next
  case (Suc p)
  then show ?case by (cases "p = 0") auto
qed

lemma link_budget_visit:
  assumes "finite (dom readlink)" "readlink t = Some target" "t \<notin> V"
  shows "link_budget readlink V = length target + link_budget readlink (insert t V)"
proof -
  have "t \<in> dom readlink - V" using assms by auto
  moreover have "dom readlink - insert t V = (dom readlink - V) - {t}" by auto
  moreover have "finite (dom readlink - V)" using assms(1) by simp
  ultimately show ?thesis
    using assms(2) by (simp add: link_budget_def sum.remove)
qed

lemma collapse_step_Continue:
  assumes step: "collapse_step st = Some (Continue st')"
  shows "\<exists>n. 0 < n \<and> n \<le> rs_pFullpath st + 1 \<and> (1 \<le> rs_pFullpath st \<longrightarrow> n \<le> rs_pFullpath st) \<and>
           rs_fullpath st' = shift_left (rs_fullpath st) (rs_pFullpath st + 1) n \<and>
           rs_pFullpath st' = rs_pFullpath st + 1 - n \<and>
           rs_visited st' = rs_visited st \<and> rs_pFullpath st < length (rs_fullpath st)"
proof -
  let ?s = "rs_fullpath st" and ?p = "rs_pFullpath st"
  have slash: "char_at ?s ?p = CHR ''/''"
    using step by (rule_tac ccontr) (simp add: collapse_step_def Let_def)
  then have p: "?p < length ?s" by (rule char_at_slash_less)
  obtain q where q: "find_prev_slash ?s ?p = Some q"
    using step slash by (cases "find_prev_slash ?s ?p") (simp_all add: collapse_step_def Let_def)
  then have qp: "q < ?p" by (rule find_prev_slash_less)
  show ?thesis
  proof (cases "?p - q - 1 = 0")
    case True
    with step slash q have "st' = st\<lparr>rs_fullpath := shift_left ?s (?p + 1) 1\<rparr>"
      by (simp add: collapse_step_def Let_def)
    then show ?thesis using p by (intro exI [of _ 1]) simp
  next
    case n0: False
    show ?thesis
    proof (cases "?p - q - 1 = 1 \<and> char_at ?s (?p - 1) = CHR ''.''")
      case True
      with step slash q n0
      have "st' = st\<lparr>rs_fullpath := shift_left ?s (?p + 1) 2, rs_pFullpath := ?p - 1\<rparr>"
        by (simp add: collapse_step_def Let_def)
      moreover have "2 \<le> ?p" using True by arith
      ultimately show ?thesis using p by (intro exI [of _ 2]) simp
    next
      case n1: False
      with step slash q n0 have dd: "?p - q - 1 = 2 \<and> char_at ?s (?p - 1) = CHR ''.''
          \<and> char_at ?s (?p - 2) = CHR ''.''"
        by (auto simp add: collapse_step_def Let_def split: if_splits)
      obtain q' where q': "(if 0 < q then find_prev_slash ?s q else Some q) = Some q'"
        using step slash q n0 n1 dd
        by (cases "if 0 < q then find_prev_slash ?s q else Some q")
           (simp_all add: collapse_step_def Let_def)
      then have "q' \<le> q"
        using find_prev_slash_less [of ?s q q'] by (auto split: if_splits)
      moreover have "st' = st\<lparr>rs_fullpath := shift_left ?s (?p + 1) (?p - q'),
                               rs_pFullpath := q' + 1\<rparr>"
        using step slash q n0 n1 dd q' by (simp add: collapse_step_def Let_def)
      ultimately show ?thesis using qp p by (intro exI [of _ "?p - q'"]) simp
    qed
  qed
qed

lemma collapse_step_no_Abort:
  assumes "char_at (rs_fullpath st) 0 = CHR ''/''" "1 \<le> rs_pFullpath st"
  shows "collapse_step st \<noteq> Some (Abort e)"
proof -
  let ?s = "rs_fullpath st" and ?p = "rs_pFullpath st"
  obtain q where q: "find_prev_slash ?s ?p = Some q"
    using find_prev_slash_Some [OF assms(1), of ?p] assms(2) by auto
  have "\<exists>q'. (if 0 < q then find_prev_slash ?s q else Some q) = Some q'"
    using find_prev_slash_Some [OF assms(1), of q] by auto
  then obtain q' where "(if 0 < q then find_prev_slash ?s q else Some q) = Some q'" ..
  then show ?thesis
    using q by (simp add: collapse_step_def Let_def)
qed

lemma collapse_step_inv:
  assumes step: "collapse_step st = Some (Continue st')" and inv: "resolve_inv readlink st"
  shows "resolve_inv readlink st'"
proof -
  let ?s = "rs_fullpath st" and ?p = "rs_pFullpath st"
  from collapse_step_Continue [OF step] obtain n where n: "0 < n" "n \<le> ?p"
    "rs_fullpath st' = shift_left ?s (?p + 1) n" "rs_pFullpath st' = ?p + 1 - n"
    "rs_visited st' = rs_visited st" "?p < length ?s"
    using inv by (auto simp add: resolve_inv_def)
  have "?s \<noteq> []" using n(6) by auto
  then have "char_at (rs_fullpath st') 0 = char_at ?s 0"
    using n by (simp add: shift_left_def char_at_def nth_append)
  moreover have "length (rs_fullpath st') \<le> length ?s" "rs_pFullpath st' \<le> length (rs_fullpath st')"
    using n by (simp_all add: shift_left_def)
  ultimately show ?thesis
    using inv n by (simp add: resolve_inv_def)
qed

lemma collapse_step_decreases:
  assumes step: "collapse_step st = Some (Continue st')"
    and fits: "length (rs_fullpath st) < PATH_MAX"
  shows "(st', st) \<in> resolve_order \<and> length (rs_fullpath st') < PATH_MAX"
proof -
  let ?s = "rs_fullpath st" and ?p = "rs_pFullpath st"
  from collapse_step_Continue [OF step] obtain n where n: "0 < n" "n \<le> ?p + 1"
    "rs_fullpath st' = shift_left ?s (?p + 1) n" "rs_visited st' = rs_visited st"
    "?p < length ?s" by blast
  then have "length (rs_fullpath st') < length ?s"
    using length_shift_left [of ?p ?s n] by simp
  then show ?thesis using fits n(4) by (simp add: resolve_order_shorter)
qed

lemma symlink_step_decreases:
  assumes step: "symlink_step st target = Continue st'"
    and fits: "length (rs_fullpath st) < PATH_MAX"
  shows "(st', st) \<in> resolve_order \<and> length (rs_fullpath st') < PATH_MAX"
proof -
  let ?prefix = "take (rs_pFullpath st) (rs_fullpath st)"
  have new: "?prefix \<notin> rs_visited st"
    using step by (rule_tac notI) (simp add: symlink_step_def Let_def split: if_splits)
  have "rs_visited st' = insert ?prefix (rs_visited st) \<and> length (rs_fullpath st') < PATH_MAX"
    using step new
    by (simp add: symlink_step_def Let_def split: if_splits option.splits) auto
  moreover have "length ?prefix < PATH_MAX" using fits by simp
  ultimately show ?thesis using new by (simp add: resolve_order_visit)
qed

lemma resolve_step_decreases:
  assumes step: "resolve_step readlink follow st = Continue st'"
    and fits: "length (rs_fullpath st) < PATH_MAX"
  shows "(st', st) \<in> resolve_order \<and> length (rs_fullpath st') < PATH_MAX"
proof (cases "collapse_step st")
  case (Some r)
  with step have "collapse_step st = Some (Continue st')" by (simp add: resolve_step_def)
  then show ?thesis using fits by (rule collapse_step_decreases)
next
  case None
  let ?s = "rs_fullpath st" and ?p = "rs_pFullpath st"
  show ?thesis
  proof (cases "if char_at ?s ?p = CHR ''/'' \<or> (char_at ?s ?p = CHR 0x00 \<and> follow)
                then readlink (take ?p ?s) else None")
    case no_link: None
    with None step have "char_at ?s ?p \<noteq> CHR 0x00"
      and st': "st' = st\<lparr>rs_pFullpath := ?p + 1\<rparr>"
      by (simp_all add: resolve_step_def Let_def split: if_splits)
    then have "?p < length ?s" using char_at_nonnull_less by blast
    then have "(st', st) \<in> resolve_order" using st' by (intro resolve_order_advance) simp_all
    then show ?thesis using st' fits by simp
  next
    case (Some target)
    with None step have "symlink_step st target = Continue st'"
      by (simp add: resolve_step_def Let_def)
    then show ?thesis using fits by (rule symlink_step_decreases)
  qed
qed

lemma resolve_loop_terminates:
  assumes "length (rs_fullpath st) < PATH_MAX"
  shows "\<exists>r. resolve_loop readlink follow st = Some r"
  using wf_resolve_order assms
proof (induction st rule: wf_induct_rule)
  case (less st)
  show ?case
  proof (cases "resolve_step readlink follow st")
    case (Continue st')
    with less.prems have "(st', st) \<in> resolve_order" "length (rs_fullpath st') < PATH_MAX"
      using resolve_step_decreases by blast+
    then obtain r where "resolve_loop readlink follow st' = Some r"
      using less.IH by blast
    with Continue show ?thesis
      by (subst resolve_loop.simps) simp
  next
    case (Break st')
    then show ?thesis by (subst resolve_loop.simps) simp
  next
    case (Abort e)
    then show ?thesis by (subst resolve_loop.simps) simp
  qed
qed

lemma symlink_step_Break:
  assumes "take (rs_pFullpath st) (rs_fullpath st) \<in> rs_visited st" "length target < PATH_MAX"
  shows "symlink_step st target = Break (st\<lparr>rs_fullpath := take (rs_pFullpath st) (rs_fullpath st)\<rparr>)"
  using assms by (simp add: symlink_step_def Let_def)

lemma symlink_step_inv:
  assumes fin: "finite (dom readlink)"
    and link: "readlink (take (rs_pFullpath st) (rs_fullpath st)) = Some target"
    and ne: "target \<noteq> []"
    and new: "take (rs_pFullpath st) (rs_fullpath st) \<notin> rs_visited st"
    and inv: "resolve_inv readlink st"
  shows "\<exists>st'. symlink_step st target = Continue st' \<and> resolve_inv readlink st'"
proof -
  let ?s = "rs_fullpath st" and ?p = "rs_pFullpath st"
  let ?prefix = "take ?p ?s"
  let ?V' = "insert ?prefix (rs_visited st)"
  let ?st1 = "st\<lparr>rs_visited := ?V', rs_reports := rs_reports st @ [?prefix]\<rparr>"
  let ?rest = "if last target = CHR ''/'' \<and> char_at ?s ?p = CHR ''/''
               then drop (?p + 1) ?s else drop ?p ?s"
  let ?buf = "target @ ?rest"
  have budget: "link_budget readlink (rs_visited st) = length target + link_budget readlink ?V'"
    using fin link new by (rule link_budget_visit)
  have bound: "length ?s + length target + link_budget readlink ?V' < PATH_MAX"
    and s0: "char_at ?s 0 = CHR ''/''" and p1: "1 \<le> ?p" and pl: "?p \<le> length ?s"
    using inv budget by (simp_all add: resolve_inv_def)
  have short: "length target < PATH_MAX" using bound by simp
  have n: "min (length target) PATH_MAX = length target" using short by simp
  have rest: "length ?rest \<le> length ?s - ?p" by auto
  have buf: "length ?buf + ?p \<le> length ?s + length target" using rest pl by simp
  have buf_short: "length ?buf < PATH_MAX" using buf bound by simp
  have buf_ne: "?buf \<noteq> []" using ne by simp
  show ?thesis
  proof (cases "hd ?buf = CHR ''/''")
    case True
    let ?st' = "?st1\<lparr>rs_fullpath := ?buf, rs_pFullpath := 1\<rparr>"
    have "symlink_step st target = Continue ?st'"
      using new short n ne buf_short True by (simp add: symlink_step_def Let_def)
    moreover have "char_at ?buf 0 = CHR ''/''"
      using True buf_ne by (simp add: char_at_def hd_conv_nth)
    then have "resolve_inv readlink ?st'"
      using buf bound buf_ne by (simp add: resolve_inv_def Suc_le_eq)
    ultimately show ?thesis by blast
  next
    case False
    obtain q where q: "find_prev_slash ?s ?p = Some q"
      using find_prev_slash_Some [OF s0, of ?p] p1 by auto
    then have qp: "q < ?p" by (rule find_prev_slash_less)
    let ?s' = "take (q + 1) ?s @ ?buf"
    let ?st' = "?st1\<lparr>rs_fullpath := ?s', rs_pFullpath := q + 1\<rparr>"
    have len: "length ?s' \<le> length ?s + length target"
      using buf qp pl by simp
    then have s'_short: "length ?s' < PATH_MAX" using bound by simp
    have "symlink_step st target = Continue ?st'"
      using new short n ne buf_short False q s'_short by (simp add: symlink_step_def Let_def)
    moreover have "?s \<noteq> []" using p1 pl by auto
    then have "char_at ?s' 0 = CHR ''/''"
      using s0 by (simp add: char_at_def nth_append)
    then have "resolve_inv readlink ?st'"
      using len bound qp pl by (simp add: resolve_inv_def)
    ultimately show ?thesis by blast
  qed
qed

lemma resolve_step_inv:
  assumes fin: "finite (dom readlink)"
    and targets: "\<And>t target. readlink t = Some target \<Longrightarrow> target \<noteq> [] \<and> length target < PATH_MAX"
    and inv: "resolve_inv readlink st"
  shows "(\<exists>st'. resolve_step readlink follow st = Break st') \<or>
         (\<exists>st'. resolve_step readlink follow st = Continue st' \<and> resolve_inv readlink st')"
proof (cases "collapse_step st")
  case (Some r)
  have s0: "char_at (rs_fullpath st) 0 = CHR ''/''" and p1: "1 \<le> rs_pFullpath st"
    using inv by (simp_all add: resolve_inv_def)
  show ?thesis
  proof (cases r)
    case (Continue st')
    with Some have "resolve_inv readlink st'" using inv collapse_step_inv by blast
    with Some Continue show ?thesis by (simp add: resolve_step_def)
  next
    case (Break st')
    with Some show ?thesis by (simp add: resolve_step_def)
  next
    case (Abort e)
    with Some show ?thesis using collapse_step_no_Abort [OF s0 p1] by simp
  qed
next
  case None
  let ?s = "rs_fullpath st" and ?p = "rs_pFullpath st"
  show ?thesis
  proof (cases "if char_at ?s ?p = CHR ''/'' \<or> (char_at ?s ?p = CHR 0x00 \<and> follow)
                then readlink (take ?p ?s) else None")
    case no_link: None
    show ?thesis
    proof (cases "char_at ?s ?p = CHR 0x00")
      case True
      with None no_link show ?thesis by (simp add: resolve_step_def Let_def)
    next
      case False
      then have "?p < length ?s" by (rule char_at_nonnull_less)
      then have "resolve_inv readlink (st\<lparr>rs_pFullpath := ?p + 1\<rparr>)"
        using inv by (simp add: resolve_inv_def)
      with None no_link False show ?thesis by (simp add: resolve_step_def Let_def)
    qed
  next
    case (Some target)
    then have link: "readlink (take ?p ?s) = Some target" by (simp split: if_splits)
    from Some None have step: "resolve_step readlink follow st = symlink_step st target"
      by (simp add: resolve_step_def Let_def)
    show ?thesis
    proof (cases "take ?p ?s \<in> rs_visited st")
      case True
      then show ?thesis
        using step targets [OF link] by (simp add: symlink_step_Break)
    next
      case False
      then show ?thesis
        using step symlink_step_inv [OF fin link _ False inv] targets [OF link] by simp
    qed
  qed
qed

lemma resolve_inv_fits: "resolve_inv readlink st \<Longrightarrow> length (rs_fullpath st) < PATH_MAX"
  by (simp add: resolve_inv_def)

lemma resolve_loop_returns:
  assumes fin: "finite (dom readlink)"
    and targets: "\<And>t target. readlink t = Some target \<Longrightarrow> target \<noteq> [] \<and> length target < PATH_MAX"
    and inv: "resolve_inv readlink st"
  shows "\<exists>st'. resolve_loop readlink follow st = Some (Inr st')"
  using wf_resolve_order inv
proof (induction st rule: wf_induct_rule)
  case (less st)
  from resolve_step_inv [OF fin targets less.prems, where follow = follow]
  show ?case
  proof
    assume "\<exists>st'. resolve_step readlink follow st = Break st'"
    then show ?thesis by (subst resolve_loop.simps) auto
  next
    assume "\<exists>st'. resolve_step readlink follow st = Continue st' \<and> resolve_inv readlink st'"
    then obtain st' where st': "resolve_step readlink follow st = Continue st'"
      "resolve_inv readlink st'" by blast
    then have "(st', st) \<in> resolve_order"
      using resolve_step_decreases resolve_inv_fits [OF less.prems] by blast
    then obtain r where "resolve_loop readlink follow st' = Some (Inr r)"
      using less.IH st'(2) by blast
    with st'(1) show ?thesis by (subst resolve_loop.simps) simp
  qed
qed

lemma resolve_path_returns:
  assumes fin: "finite (dom readlink)"
    and ne: "\<And>t. readlink t \<noteq> Some []"
    and abs: "char_at fullpath 0 = CHR ''/''"
    and small: "length fullpath + (\<Sum>t \<in> dom readlink. length (the (readlink t))) < PATH_MAX"
  shows "\<exists>s reports. resolve_path readlink follow fullpath = Some (Inr (s, reports))"
proof -
  let ?st = "\<lparr>rs_fullpath = fullpath, rs_pFullpath = 1, rs_visited = {}, rs_reports = []\<rparr>"
  have targets: "target \<noteq> [] \<and> length target < PATH_MAX" if "readlink t = Some target" for t target
  proof -
    have "t \<in> dom readlink" using that by auto
    then have "length (the (readlink t)) \<le> (\<Sum>t \<in> dom readlink. length (the (readlink t)))"
      using fin by (intro member_le_sum) simp_all
    then show ?thesis using that small ne [of t] by auto
  qed
  have "fullpath \<noteq> []" using abs by (auto simp add: char_at_def)
  then have inv: "resolve_inv readlink ?st"
    using abs small by (simp add: resolve_inv_def link_budget_def Suc_le_eq)
  have "\<exists>st'. resolve_loop readlink follow ?st = Some (Inr st')"
    by (rule resolve_loop_returns [OF fin _ inv]) (rule targets)
  then show ?thesis using abs by (auto simp add: resolve_path_def)
qed

text \<open>
  What holds of \<open>resolve_path\<close> as long as the buffers suffice. It returns for every
  file system and every string that fits its buffer: the loop always leaves, either at
  a \<open>break\<close> or at a copy that would run over one of the two buffers. For an absolute
  path and a file system with finitely many links, none of them empty, such that the
  path and all link targets together are shorter than \<open>PATH_MAX\<close>, it returns at a
  \<open>break\<close> with a path, whatever cycles the links form. A prefix that is a link and
  is already in the visited set ends the loop, and the string left is that prefix.
\<close>

lemma resolve_path_within_buffers:
  "(length fullpath < PATH_MAX \<longrightarrow>
      (\<exists>r. resolve_path readlink followFinalSymlink fullpath = Some r)) \<and>
   (finite (dom readlink) \<and> (\<forall>t. readlink t \<noteq> Some []) \<and>
    char_at fullpath 0 = CHR ''/'' \<and>
    length fullpath + (\<Sum>t \<in> dom readlink. length (the (readlink t))) < PATH_MAX \<longrightarrow>
      (\<exists>s reports. resolve_path readlink followFinalSymlink fullpath = Some (Inr (s, reports)))) \<and>
   (take (rs_pFullpath st) (rs_fullpath st) \<in> rs_visited st \<and> length target < PATH_MAX \<longrightarrow>
      symlink_step st target =
        Break (st\<lparr>rs_fullpath := take (rs_pFullpath st) (rs_fullpath st)\<rparr>))"
proof (intro conjI impI)
  assume "length fullpath < PATH_MAX"
  then have "\<exists>r. resolve_loop readlink followFinalSymlink
      \<lparr>rs_fullpath = fullpath, rs_pFullpath = 1, rs_visited = {}, rs_reports = []\<rparr> = Some r"
    by (intro resolve_loop_terminates) simp
  then show "\<exists>r. resolve_path readlink followFinalSymlink fullpath = Some r"
    by (auto simp add: resolve_path_def split: option.splits sum.splits)
next
  assume "finite (dom readlink) \<and> (\<forall>t. readlink t \<noteq> Some []) \<and>
    char_at fullpath 0 = CHR ''/'' \<and>
    length fullpath + (\<Sum>t \<in> dom readlink. length (the (readlink t))) < PATH_MAX"
  then show "\<exists>s reports. resolve_path readlink followFinalSymlink fullpath = Some (Inr (s, reports))"
    by (intro resolve_path_returns) simp_all
next
  assume "take (rs_pFullpath st) (rs_fullpath st) \<in> rs_visited st \<and> length target < PATH_MAX"
  then show "symlink_step st target =
      Break (st\<lparr>rs_fullpath := take (rs_pFullpath st) (rs_fullpath st)\<rparr>)"
    by (simp add: symlink_step_Break)
qed

text \<open>The link \<open>/x\<close> that points at itself: \<open>resolve_path("/x")\<close> returns
  \<open>/x\<close>, after one read-link report.\<close>

lemma resolve_path_self_link:
  "resolve_path [''/x'' \<mapsto> ''/x''] True ''/x'' = Some (Inr (''/x'', [''/x'']))"
  by (simp add: resolve_path_def resolve_loop.simps resolve_step_def collapse_step_def
      symlink_step_def char_at_def PATH_MAX_def Let_def)

text \<open>A link \<open>/x\<close> whose target has \<open>PATH_MAX - 1\<close> bytes: \<open>readlink\<close> fills
  \<open>readlinkBuf\<close> up to its last byte, and appending the rest \<open>/y\<close> of the path
  writes past its end.\<close>

lemma resolve_path_long_target:
  assumes link: "readlink ''/x'' = Some target"
    and len: "length target = 4095"
  shows "resolve_path readlink followFinalSymlink ''/x/y'' = Some (Inl Readlink_buffer_overrun)"
proof -
  let ?st1 = "\<lparr>rs_fullpath = ''/x/y'', rs_pFullpath = 1, rs_visited = {}, rs_reports = []\<rparr>"
  let ?st2 = "\<lparr>rs_fullpath = ''/x/y'', rs_pFullpath = 2, rs_visited = {}, rs_reports = []\<rparr>"
  have s1: "resolve_step readlink followFinalSymlink ?st1 = Continue ?st2"
    by (simp add: resolve_step_def collapse_step_def char_at_def)
  have c2: "collapse_step ?st2 = None"
    by (simp add: collapse_step_def char_at_def numeral_2_eq_2)
  have y2: "symlink_step ?st2 target = Abort Readlink_buffer_overrun"
    by (simp add: symlink_step_def char_at_def PATH_MAX_def len Let_def)
  have s2: "resolve_step readlink followFinalSymlink ?st2 = Abort Readlink_buffer_overrun"
    by (simp add: resolve_step_def c2 char_at_def link y2)
  have l2: "resolve_loop readlink followFinalSymlink ?st2 = Some (Inl Readlink_buffer_overrun)"
    using s2 by (subst resolve_loop.simps) simp
  have "resolve_loop readlink followFinalSymlink ?st1 = Some (Inl Readlink_buffer_overrun)"
    using s1 l2 by (subst resolve_loop.simps) simp
  then show ?thesis by (simp add: resolve_path_def char_at_def)
qed

text \<open>
  C9. \<open>resolve_path\<close> does not stop without crashing on every absolute path when
  links form a cycle. With \<open>/x\<close> a link to \<open>/x/aaa...\<close>, a target of 4095 bytes
  that leads back through \<open>/x\<close>, and the path \<open>/x/y\<close>, the \<open>strcpy\<close> that
  appends the rest of the path to the link target runs over \<open>readlinkBuf\<close>, a buffer
  of \<open>PATH_MAX\<close> bytes, before the prefix \<open>/x\<close> is met a second time, whether
  or not the final link is followed.
\<close>

theorem C9_long_link_target_overruns_readlinkBuf:
  "resolve_path [''/x'' \<mapsto> ''/x/'' @ replicate 4092 (CHR ''a'')] True ''/x/y'' =
     Some (Inl Readlink_buffer_overrun) \<and>
   resolve_path [''/x'' \<mapsto> ''/x/'' @ replicate 4092 (CHR ''a'')] False ''/x/y'' =
     Some (Inl Readlink_buffer_overrun)"
  by (simp add: resolve_path_long_target)

subsection \<open>Report transport\<close>

lemma Send_too_big:
  "sink_real_open sink \<Longrightarrow> word_of_int PIPE_BUF < bufsiz \<Longrightarrow>
   Send sink buf bufsiz = Inl Fatal_buffer_exceeds_PIPE_BUF"
  by (simp add: Send_def)

text \<open>A count that is smaller than the size as an unsigned number is fatal.\<close>

lemma Send_short_write:
  "sink_real_open sink \<Longrightarrow> bufsiz \<le> word_of_int PIPE_BUF \<Longrightarrow> sink_logFd sink \<noteq> - 1 \<Longrightarrow>
   sink_write sink buf bufsiz < bufsiz \<Longrightarrow> Send sink buf bufsiz = Inl Fatal_wrote_only"
  by (simp add: Send_def Let_def)

text \<open>A message that is not a debug message and whose encoding reaches the payload
  bound is fatal; nothing is sent.\<close>

lemma SendReport_not_debug:
  assumes "ar_operation report \<noteq> kOpProcessTreeCompleted"
    "PIPE_BUF - 4 \<le> snd (BuildReport (PIPE_BUF - 4) report (ar_path report))"
  shows "SendReport BuildReport sink report False = Inl Fatal_message_truncated"
  using assms by (auto simp add: SendReport_def Let_def split: prod.split)

text \<open>A debug message whose encoding reaches the payload bound is encoded again with
  its text cut, and that encoding is handed to \<open>Send\<close> with a size of at most
  \<open>PIPE_BUF\<close>.\<close>

lemma SendReport_debug:
  assumes "ar_operation report \<noteq> kOpProcessTreeCompleted"
    "BuildReport (PIPE_BUF - 4) report (ar_path report) = (payload, numWritten)"
    "PIPE_BUF - 4 \<le> numWritten" "numWritten < PIPE_BUF - 4 + int PATH_MAX"
    "BuildReport (PIPE_BUF - 4) report
       (take (nat (int PATH_MAX - (numWritten - (PIPE_BUF - 4)) - 1)) (ar_path report))
     = (payload', numWritten')"
  shows "SendReport BuildReport sink report True =
     Send sink (length_prefix numWritten' @ payload')
       (word_of_int (min (numWritten' + 4) PIPE_BUF))"
  using assms by (simp add: SendReport_def Let_def)

text \<open>
  C8. The claim asks that \<open>Send\<close> fail fatally whenever fewer bytes than intended
  were written. The test \<open>numWritten < bufsiz\<close> compares an \<open>ssize_t\<close> with a
  \<open>size_t\<close> and is therefore unsigned: a write that fails and returns \<open>-1\<close>
  compares as the largest word, and \<open>Send\<close> returns true. A write of 99 of 100 bytes
  is fatal, as claimed.
\<close>

theorem C8_failed_write_is_not_fatal:
  "Send \<lparr>sink_real_open = True, sink_logFd = 3, sink_write = (\<lambda>buf count. - 1)\<rparr>
     ''report'' 100 = Inr True \<and>
   Send \<lparr>sink_real_open = True, sink_logFd = 3, sink_write = (\<lambda>buf count. 99)\<rparr>
     ''report'' 100 = Inl Fatal_wrote_only"
  by (simp add: Send_def PIPE_BUF_def)

subsection \<open>How far the deviations reach\<close>

text \<open>For every non-zero register value \<open>GetErrno\<close> returns the negation minus
  one, cut to 32 bits.\<close>

lemma GetErrno_nonzero: "r \<noteq> 0 \<Longrightarrow> GetErrno r = sint (ucast (- r - 1) :: c_int)"
proof -
  have m: "(0xffffffffffffffff :: u64) = - 1" by simp
  have "0xffffffffffffffff - r = - r - 1" unfolding m by simp
  then show "r \<noteq> 0 \<Longrightarrow> GetErrno r = sint (ucast (- r - 1) :: c_int)"
    by (simp only: GetErrno_def if_False)
qed

text \<open>\<open>unlinkat\<close> with the 64-bit \<open>AT_FDCWD\<close> in the descriptor register makes
  no report, whatever the path.\<close>

lemma Handleunlinkat_AT_FDCWD:
  assumes "ReadArgumentLong mem 1 = AT_FDCWD" "ReadArgumentString mem 2 True 0 = Inr path"
  shows "Handleunlinkat mem traceePid = Inr []"
  using assms by (simp add: Handleunlinkat_def Let_def)

text \<open>The cache key is \<open>ES_EVENT_TYPE_NOTIFY_WRITE\<close> for the eleven event types
  of the first group and the event type itself for every other, the second group
  included. A second call with the same path is a hit exactly when the two keys are
  equal or the path was in the cache before.\<close>

lemma IsCacheHit_key_unless_mutation:
  "IsCacheHit_key event =
     (if event \<in> {ES_EVENT_TYPE_NOTIFY_TRUNCATE, ES_EVENT_TYPE_NOTIFY_SETATTRLIST,
      ES_EVENT_TYPE_NOTIFY_SETEXTATTR, ES_EVENT_TYPE_NOTIFY_DELETEEXTATTR,
      ES_EVENT_TYPE_NOTIFY_SETFLAGS, ES_EVENT_TYPE_NOTIFY_SETOWNER,
      ES_EVENT_TYPE_NOTIFY_SETMODE, ES_EVENT_TYPE_NOTIFY_WRITE,
      ES_EVENT_TYPE_NOTIFY_UTIMES, ES_EVENT_TYPE_NOTIFY_SETTIME,
      ES_EVENT_TYPE_NOTIFY_SETACL} then ES_EVENT_TYPE_NOTIFY_WRITE else event)"
  by (cases event) (simp_all add: switch_default_def)

lemma IsCacheHit_second_call:
  assumes "\<not> obs_disposed obs"
    "e1 \<notin> {ES_EVENT_TYPE_NOTIFY_FORK, ES_EVENT_TYPE_NOTIFY_EXEC, ES_EVENT_TYPE_NOTIFY_EXIT}"
    "e2 \<notin> {ES_EVENT_TYPE_NOTIFY_FORK, ES_EVENT_TYPE_NOTIFY_EXEC, ES_EVENT_TYPE_NOTIFY_EXIT}"
  shows "fst (IsCacheHit True (snd (IsCacheHit True obs e1 path [])) e2 path [])
         = (IsCacheHit_key e1 = IsCacheHit_key e2 \<or>
            (\<exists>paths. obs_cache obs (IsCacheHit_key e2) = Some paths \<and> path \<in> paths))"
  using assms by (auto simp add: IsCacheHit_def Let_def split: option.splits)

end
